theory Spec2Isabelle
  imports Main
begin

section \<open>Errors\<close>

text \<open>
  The builders report failure through Go \<open>error\<close> values made by \<open>errors.New\<close> and
  \<open>fmt.Errorf\<close>. Each constructor stands for one of the source's messages and carries
  what the message is formatted with; \<open>Error\<close> renders the message itself.
\<close>

datatype error =
    DuplicateConditionsBlock
  | DuplicateRuleBlock string
  | MalformedCheckToken string
  | InvalidIntegrationId string

fun Error :: "error \<Rightarrow> string" where
  "Error DuplicateConditionsBlock = ''cannot specify conditions more than one time''"
| "Error (DuplicateRuleBlock kind) = ''cannot specify rule_'' @ kind @ '' more than one time''"
| "Error (MalformedCheckToken statusCheck) =
     ''could not parse check '' @ [CHR 0x27] @ statusCheck @ [CHR 0x27]
       @ ''. Expected `context:integration_id` or `context`''"
| "Error (InvalidIntegrationId cIntegrationId) =
     ''could not parse '' @ cIntegrationId @ '' as valid integration_id''"

section \<open>The request: the API client's types\<close>

text \<open>
  The structs of the API client that the builders fill in, with the fields the builders
  set. A pointer is an \<open>option\<close> (\<open>None\<close> is \<open>nil\<close>). A \<open>[]string\<close> is a list, a nil
  slice and an empty one being the same list (Go's \<open>len\<close>, \<open>range\<close> and \<open>append\<close> do not
  tell them apart); the bypass actors keep the difference, since \<open>expandBypassActors\<close>
  returns either. Go's \<open>int\<close> and \<open>int64\<close> values are integers: the conversion
  \<open>int64(x)\<close> of an \<open>int\<close> keeps the value.
\<close>

record BypassActor =
  ActorID :: "int option"
  ActorType :: "string option"

record RulesetRefConditionParameters =
  Include :: "string list"
  Exclude :: "string list"

record RulesetConditions =
  RefName :: "RulesetRefConditionParameters option"

record RuleRequiredStatusChecks =
  Context :: string
  IntegrationID :: "int option"

record RequiredDeploymentEnvironmentsRuleParameters =
  RequiredDeploymentEnvironments :: "string list"

record PullRequestRuleParameters =
  DismissStaleReviewsOnPush :: bool
  RequireCodeOwnerReview :: bool
  RequireLastPushApproval :: bool
  RequiredApprovingReviewCount :: int
  RequiredReviewThreadResolution :: bool

record RequiredStatusChecksRuleParameters =
  RequiredStatusChecks :: "RuleRequiredStatusChecks list"
  StrictRequiredStatusChecksPolicy :: bool

text \<open>
  \<open>json.Marshal\<close> of a parameter struct, kept as \<open>json.RawMessage\<close>: the blob is
  represented by the struct it encodes, one constructor per struct type. The bytes of the
  encoding are the JSON library's and are not modelled.
\<close>

datatype RawMessage =
    Marshal_RequiredDeployments RequiredDeploymentEnvironmentsRuleParameters
  | Marshal_PullRequest PullRequestRuleParameters
  | Marshal_RequiredStatusChecks RequiredStatusChecksRuleParameters

record RepositoryRule =
  Type :: string
  Parameters :: "RawMessage option"

record Ruleset =
  Name :: string
  Target :: "string option"
  SourceType :: "string option"
  Enforcement :: string
  BypassActors :: "BypassActor list option"
  Conditions :: "RulesetConditions option"
  Rules :: "RepositoryRule list"

section \<open>The configuration: \<open>schema.ResourceData\<close>\<close>

text \<open>
  The builders read the configuration through \<open>d.Get(key)\<close> and \<open>d.GetOk(key)\<close> and
  assert the dynamic type of what they get. The record below holds the value of each
  attribute, at the type the source asserts:
  \<^item> a string or boolean attribute, read by \<open>d.Get(key).(string)\<close> or
    \<open>d.Get(key).(bool)\<close>: a field of that type;
  \<^item> a list- or set-valued attribute, read by \<open>d.GetOk(key)\<close>: \<open>None\<close> when the
    configuration does not hold the attribute, \<open>Some vL\<close> with its elements when it does
    (\<open>Some []\<close> is an attribute that is present and empty); \<open>GetOk\<close> below is what the
    call returns for it;
  \<^item> a \<open>[]interface{}\<close> of nested blocks: a list whose elements are \<open>None\<close> (a nil
    element) or \<open>Some m\<close> for the block's \<open>map[string]interface{}\<close>, a record of the
    keys the source reads;
  \<^item> a \<open>*schema.Set\<close>: the list its \<open>List()\<close> returns, in that order.
  \<open>set_conditions\<close> is the writing side: the value last passed to
  \<open>d.Set("conditions", _)\<close>, \<open>None\<close> before any such call.
\<close>

record bypass_actors_elem =
  actor_id :: int
  actor_type :: string

record conditions_elem =
  include' :: "string list"
  exclude' :: "string list"

record rule_pull_request_elem =
  dismiss_stale_reviews_on_push :: bool
  require_code_owner_review :: bool
  require_last_push_approval :: bool
  required_approving_review_count :: int
  required_review_thread_resolution :: bool

record rule_required_status_checks_elem =
  required_status_checks :: "string list"
  strict_required_status_checks_policy :: bool

record ResourceData =
  name :: string
  target :: string
  enforcement :: string
  bypass_actors :: "bypass_actors_elem list option"
  conditions :: "conditions_elem option list option"
  rule_creation :: bool
  rule_deletion :: bool
  rule_required_linear_history :: bool
  rule_required_signatures :: bool
  rule_non_fast_forward :: bool
  rule_required_deployments :: "string list option"
  rule_pull_request :: "rule_pull_request_elem option list option"
  rule_required_status_checks :: "rule_required_status_checks_elem option list option"
  set_conditions :: "conditions_elem list option"

text \<open>
  \<open>v, ok := d.GetOk(key)\<close> of the plugin SDK for a list- or set-valued attribute: \<open>ok\<close>
  is true only when the attribute is set and its value is not the zero value of its type,
  which for a list or a set is the empty one. \<open>None\<close> is \<open>ok = false\<close> (the source uses
  \<open>v\<close> only under \<open>ok\<close>), \<open>Some v\<close> is \<open>ok = true\<close> with the value.
\<close>

definition GetOk :: "'a list option \<Rightarrow> 'a list option" where
  "GetOk attribute =
     (case attribute of
        None \<Rightarrow> None
      | Some vL \<Rightarrow> if vL = [] then None else Some vL)"

text \<open>\<open>d.Get(key).(bool)\<close> for the boolean attributes; the source reads these five keys only.\<close>

definition Get_bool :: "ResourceData \<Rightarrow> string \<Rightarrow> bool" where
  "Get_bool d key =
     (if key = ''rule_creation'' then rule_creation d
      else if key = ''rule_deletion'' then rule_deletion d
      else if key = ''rule_required_linear_history'' then rule_required_linear_history d
      else if key = ''rule_required_signatures'' then rule_required_signatures d
      else if key = ''rule_non_fast_forward'' then rule_non_fast_forward d
      else False)"

text \<open>A configuration with nothing set, the base of the concrete inputs used below.\<close>

definition unset :: ResourceData where
  "unset = \<lparr>name = ''protect-main'', target = ''branch'', enforcement = ''active'',
     bypass_actors = None, conditions = None,
     rule_creation = False, rule_deletion = False, rule_required_linear_history = False,
     rule_required_signatures = False, rule_non_fast_forward = False,
     rule_required_deployments = None, rule_pull_request = None,
     rule_required_status_checks = None, set_conditions = None\<rparr>"

section \<open>Library functions the builders call\<close>

text \<open>
  \<open>strings.SplitN(s, sep, n)\<close> of the Go standard library for a one-character separator
  and \<open>n \<ge> 0\<close>: at most \<open>n\<close> parts, the last one the unsplit remainder.
\<close>

fun SplitN :: "string \<Rightarrow> char \<Rightarrow> nat \<Rightarrow> string list" where
  "SplitN s sep 0 = []"
| "SplitN s sep (Suc 0) = [s]"
| "SplitN s sep (Suc (Suc k)) =
     (if sep \<in> set s
      then takeWhile (\<lambda>c. c \<noteq> sep) s # SplitN (tl (dropWhile (\<lambda>c. c \<noteq> sep) s)) sep (Suc k)
      else [s])"

text \<open>
  \<open>strconv.Atoi\<close> of the Go standard library where \<open>int\<close> has 64 bits: an optional sign,
  then one or more decimal digits, and a value in the range of \<open>int\<close>; anything else is
  an error (\<open>None\<close>).
\<close>

definition isDigit :: "char \<Rightarrow> bool" where
  "isDigit c = (48 \<le> (of_char c :: nat) \<and> (of_char c :: nat) \<le> 57)"

definition Atoi :: "string \<Rightarrow> int option" where
  "Atoi s =
     (let neg = (s \<noteq> [] \<and> hd s = CHR ''-'');
          ds = (if s \<noteq> [] \<and> (hd s = CHR ''-'' \<or> hd s = CHR ''+'') then tl s else s)
      in if ds = [] \<or> \<not> list_all isDigit ds then None
         else let n = foldl (\<lambda>a c. a * 10 + (of_char c - 48)) (0::int) ds;
                  v = (if neg then - n else n)
              in if v < - (2 ^ 63) \<or> 2 ^ 63 - 1 < v then None else Some v)"

text \<open>
  Modelled from the spec: \<open>expandNestedSet\<close>, a helper of this repository that
  \<open>expandConditions\<close> calls and that is defined outside the sources embedded here. The
  spec has the condition builder build the include and exclude sets verbatim from the
  block's two named set fields: the helper returns the elements of the named set, in the
  order the set lists them.
\<close>

definition expandNestedSet :: "conditions_elem \<Rightarrow> string \<Rightarrow> string list" where
  "expandNestedSet m target' =
     (if target' = ''include'' then include' m
      else if target' = ''exclude'' then exclude' m
      else [])"

section \<open>The builders\<close>

subsection \<open>\<open>expandBypassActors\<close>\<close>

fun expandBypassActors_loop :: "BypassActor list \<Rightarrow> bypass_actors_elem list \<Rightarrow> BypassActor list" where
  "expandBypassActors_loop bypassActors [] = bypassActors"
| "expandBypassActors_loop bypassActors (m # vL) =
     expandBypassActors_loop
       (bypassActors @ [\<lparr>ActorID = Some (actor_id m), ActorType = Some (actor_type m)\<rparr>]) vL"

definition expandBypassActors :: "ResourceData \<Rightarrow> error + BypassActor list option" where
  "expandBypassActors d =
     (case GetOk (bypass_actors d) of
        Some vL \<Rightarrow> Inr (Some (expandBypassActors_loop [] vL))
      | None \<Rightarrow> Inr None)"

subsection \<open>\<open>expandConditions\<close>\<close>

fun expandConditions_loop ::
  "RulesetRefConditionParameters \<Rightarrow> conditions_elem option list
     \<Rightarrow> error + RulesetRefConditionParameters option" where
  "expandConditions_loop rulesetConditions [] = Inr (Some rulesetConditions)"
| "expandConditions_loop rulesetConditions (None # vL) = Inr None"
| "expandConditions_loop rulesetConditions (Some m # vL) =
     expandConditions_loop
       (rulesetConditions\<lparr>Include := expandNestedSet m ''include'',
                           Exclude := expandNestedSet m ''exclude''\<rparr>) vL"

definition expandConditions :: "ResourceData \<Rightarrow> error + RulesetRefConditionParameters option" where
  "expandConditions d =
     (case GetOk (conditions d) of
        Some vL \<Rightarrow>
          if length vL > 1 then Inl DuplicateConditionsBlock
          else expandConditions_loop \<lparr>Include = [], Exclude = []\<rparr> vL
      | None \<Rightarrow> Inr None)"

subsection \<open>\<open>expandRules\<close>\<close>

definition rules_toggleable :: "string list" where
  "rules_toggleable =
     [''creation'', ''deletion'', ''required_linear_history'', ''required_signatures'',
      ''non_fast_forward'']"

fun expandRules_toggle_loop ::
  "ResourceData \<Rightarrow> RepositoryRule list \<Rightarrow> string list \<Rightarrow> RepositoryRule list" where
  "expandRules_toggle_loop d rulesetRules [] = rulesetRules"
| "expandRules_toggle_loop d rulesetRules (ruleName # ruleNames) =
     expandRules_toggle_loop d
       (if Get_bool d (''rule_'' @ ruleName)
        then rulesetRules @ [\<lparr>Type = ruleName, Parameters = None\<rparr>]
        else rulesetRules)
       ruleNames"

text \<open>
  The block for \<open>rule_required_deployments\<close>, a set of environment names.
  \<open>requiredDeploymentRule\<close>, and \<open>pullRequestRule\<close> and \<open>requiredStatusChecksRule\<close> below, are
  the \<open>RepositoryRule\<close> each block builds from its marshalled parameters and appends.
\<close>

fun requiredDeploymentEnvs_loop :: "string list \<Rightarrow> string list \<Rightarrow> string list" where
  "requiredDeploymentEnvs_loop requiredDeploymentEnvs [] = requiredDeploymentEnvs"
| "requiredDeploymentEnvs_loop requiredDeploymentEnvs (env # envs) =
     requiredDeploymentEnvs_loop (requiredDeploymentEnvs @ [env]) envs"

definition requiredDeploymentRule :: "string list \<Rightarrow> RepositoryRule" where
  "requiredDeploymentRule requiredDeploymentEnvs =
     \<lparr>Type = ''required_deployments'',
      Parameters = Some (Marshal_RequiredDeployments
        \<lparr>RequiredDeploymentEnvironments = requiredDeploymentEnvs\<rparr>)\<rparr>"

definition expandRules_required_deployments ::
  "ResourceData \<Rightarrow> RepositoryRule list \<Rightarrow> RepositoryRule list" where
  "expandRules_required_deployments d rulesetRules =
     (case GetOk (rule_required_deployments d) of
        Some deploymentEnvs \<Rightarrow>
          rulesetRules @ [requiredDeploymentRule (requiredDeploymentEnvs_loop [] deploymentEnvs)]
      | None \<Rightarrow> rulesetRules)"

text \<open>The block for \<open>rule_pull_request\<close>; a nil element leaves the loop (\<open>break\<close>).\<close>

definition pullRequestRule :: "rule_pull_request_elem \<Rightarrow> RepositoryRule" where
  "pullRequestRule m =
     \<lparr>Type = ''pull_request'',
      Parameters = Some (Marshal_PullRequest
        \<lparr>DismissStaleReviewsOnPush = dismiss_stale_reviews_on_push m,
         RequireCodeOwnerReview = require_code_owner_review m,
         RequireLastPushApproval = require_last_push_approval m,
         RequiredApprovingReviewCount = required_approving_review_count m,
         RequiredReviewThreadResolution = required_review_thread_resolution m\<rparr>)\<rparr>"

fun expandRules_pull_request_loop ::
  "RepositoryRule list \<Rightarrow> rule_pull_request_elem option list \<Rightarrow> RepositoryRule list" where
  "expandRules_pull_request_loop rulesetRules [] = rulesetRules"
| "expandRules_pull_request_loop rulesetRules (None # vL) = rulesetRules"
| "expandRules_pull_request_loop rulesetRules (Some m # vL) =
     expandRules_pull_request_loop (rulesetRules @ [pullRequestRule m]) vL"

definition expandRules_pull_request ::
  "ResourceData \<Rightarrow> RepositoryRule list \<Rightarrow> error + RepositoryRule list" where
  "expandRules_pull_request d rulesetRules =
     (case GetOk (rule_pull_request d) of
        Some vL \<Rightarrow>
          if length vL > 1 then Inl (DuplicateRuleBlock ''pull_request'')
          else Inr (expandRules_pull_request_loop rulesetRules vL)
      | None \<Rightarrow> Inr rulesetRules)"

text \<open>
  The block for \<open>rule_required_status_checks\<close>. \<open>parseStatusCheck\<close> is the body of its
  inner loop: one \<open>context:integration_id\<close> token to one \<open>RuleRequiredStatusChecks\<close>.
\<close>

definition parseStatusCheck :: "string \<Rightarrow> error + RuleRequiredStatusChecks" where
  "parseStatusCheck statusCheck =
     (case (case SplitN statusCheck CHR '':'' 2 of
              [p0] \<Rightarrow> Inr (p0, '''')
            | [p0, p1] \<Rightarrow> Inr (p0, p1)
            | _ \<Rightarrow> Inl (MalformedCheckToken statusCheck)) of
        Inl e \<Rightarrow> Inl e
      | Inr (cContext, cIntegrationId) \<Rightarrow>
          if cIntegrationId \<noteq> ''''
          then (case Atoi cIntegrationId of
                  None \<Rightarrow> Inl (InvalidIntegrationId cIntegrationId)
                | Some rrscIntegrationId \<Rightarrow>
                    Inr \<lparr>Context = cContext, IntegrationID = Some rrscIntegrationId\<rparr>)
          else Inr \<lparr>Context = cContext, IntegrationID = None\<rparr>)"

fun requiredStatusChecks_loop ::
  "RuleRequiredStatusChecks list \<Rightarrow> string list \<Rightarrow> error + RuleRequiredStatusChecks list" where
  "requiredStatusChecks_loop requiredStatusChecksList [] = Inr requiredStatusChecksList"
| "requiredStatusChecks_loop requiredStatusChecksList (statusCheck # statusChecks) =
     (case parseStatusCheck statusCheck of
        Inl e \<Rightarrow> Inl e
      | Inr rrscCheck \<Rightarrow>
          requiredStatusChecks_loop (requiredStatusChecksList @ [rrscCheck]) statusChecks)"

definition requiredStatusChecksRule ::
  "RuleRequiredStatusChecks list \<Rightarrow> rule_required_status_checks_elem \<Rightarrow> RepositoryRule" where
  "requiredStatusChecksRule requiredStatusChecksList m =
     \<lparr>Type = ''required_status_checks'',
      Parameters = Some (Marshal_RequiredStatusChecks
        \<lparr>RequiredStatusChecks = requiredStatusChecksList,
         StrictRequiredStatusChecksPolicy = strict_required_status_checks_policy m\<rparr>)\<rparr>"

fun expandRules_required_status_checks_loop ::
  "RepositoryRule list \<Rightarrow> rule_required_status_checks_elem option list
     \<Rightarrow> error + RepositoryRule list" where
  "expandRules_required_status_checks_loop rulesetRules [] = Inr rulesetRules"
| "expandRules_required_status_checks_loop rulesetRules (None # vL) = Inr rulesetRules"
| "expandRules_required_status_checks_loop rulesetRules (Some m # vL) =
     (case requiredStatusChecks_loop [] (required_status_checks m) of
        Inl e \<Rightarrow> Inl e
      | Inr requiredStatusChecksList \<Rightarrow>
          expandRules_required_status_checks_loop
            (rulesetRules @ [requiredStatusChecksRule requiredStatusChecksList m]) vL)"

definition expandRules_required_status_checks ::
  "ResourceData \<Rightarrow> RepositoryRule list \<Rightarrow> error + RepositoryRule list" where
  "expandRules_required_status_checks d rulesetRules =
     (case GetOk (rule_required_status_checks d) of
        Some vL \<Rightarrow>
          if length vL > 1 then Inl (DuplicateRuleBlock ''required_status_checks'')
          else expandRules_required_status_checks_loop rulesetRules vL
      | None \<Rightarrow> Inr rulesetRules)"

definition expandRules :: "ResourceData \<Rightarrow> error + RepositoryRule list" where
  "expandRules d =
     (case expandRules_pull_request d
             (expandRules_required_deployments d
                (expandRules_toggle_loop d [] rules_toggleable)) of
        Inl e \<Rightarrow> Inl e
      | Inr rulesetRules \<Rightarrow> expandRules_required_status_checks d rulesetRules)"

subsection \<open>\<open>buildRulesetRequest\<close>\<close>

definition buildRulesetRequest :: "ResourceData \<Rightarrow> string option \<Rightarrow> error + Ruleset" where
  "buildRulesetRequest d sourceType =
     (case expandBypassActors d of
        Inl e \<Rightarrow> Inl e
      | Inr bypassActors \<Rightarrow>
          (case expandConditions d of
             Inl e \<Rightarrow> Inl e
           | Inr conditions' \<Rightarrow>
               (case expandRules d of
                  Inl e \<Rightarrow> Inl e
                | Inr rules \<Rightarrow>
                    Inr \<lparr>Name = name d, Target = Some (target d), SourceType = sourceType,
                         Enforcement = enforcement d, BypassActors = bypassActors,
                         Conditions = Some \<lparr>RefName = conditions'\<rparr>, Rules = rules\<rparr>)))"

section \<open>The state flattener\<close>

text \<open>
  The nil-safe accessors of the API client: the field, or nil when the receiver is nil.
  \<open>flattenAndSetRulesetConditions\<close> takes a \<open>*github.Ruleset\<close>, which may be nil, and
  returns the configuration after its call to \<open>d.Set\<close>.
\<close>

definition GetConditions :: "Ruleset option \<Rightarrow> RulesetConditions option" where
  "GetConditions r = (case r of None \<Rightarrow> None | Some r' \<Rightarrow> Conditions r')"

definition GetRefName :: "RulesetConditions option \<Rightarrow> RulesetRefConditionParameters option" where
  "GetRefName r = (case r of None \<Rightarrow> None | Some r' \<Rightarrow> RefName r')"

definition flattenAndSetRulesetConditions :: "ResourceData \<Rightarrow> Ruleset option \<Rightarrow> ResourceData" where
  "flattenAndSetRulesetConditions d ruleset =
     (let rc = GetConditions ruleset
      in if rc \<noteq> None \<and> GetRefName rc \<noteq> None
         then d\<lparr>set_conditions :=
                  Some [\<lparr>include' = Include (the (GetRefName rc)),
                         exclude' = Exclude (the (GetRefName rc))\<rparr>]\<rparr>
         else d\<lparr>set_conditions := Some []\<rparr>)"

section \<open>Properties\<close>

subsection \<open>\<open>GetOk\<close>\<close>

lemma GetOk_simps [simp]:
  "GetOk None = None"
  "GetOk (Some []) = None"
  "GetOk (Some (v # vL)) = Some (v # vL)"
  by (simp_all add: GetOk_def)

lemma GetOk_Some_iff: "GetOk attribute = Some vL \<longleftrightarrow> attribute = Some vL \<and> vL \<noteq> []"
  by (auto simp: GetOk_def split: option.splits)

lemma GetOk_None_iff: "GetOk attribute = None \<longleftrightarrow> attribute = None \<or> attribute = Some []"
  by (auto simp: GetOk_def split: option.splits)

lemma GetOk_long [simp]: "length vL > 1 \<Longrightarrow> GetOk (Some vL) = Some vL"
  by (cases vL) simp_all

subsection \<open>The condition builder\<close>



subsection \<open>The composite status-check token\<close>

lemma SplitN_2:
  "SplitN s sep 2 =
     (if sep \<in> set s
      then [takeWhile (\<lambda>c. c \<noteq> sep) s, tl (dropWhile (\<lambda>c. c \<noteq> sep) s)]
      else [s])"
  by (simp add: numeral_2_eq_2)

lemma SplitN_2_no_sep: "sep \<notin> set c \<Longrightarrow> SplitN c sep 2 = [c]"
  by (simp add: SplitN_2)

lemma takeWhile_first_sep: "sep \<notin> set c \<Longrightarrow> takeWhile (\<lambda>x. x \<noteq> sep) (c @ sep # r) = c"
  by (induction c) auto

lemma dropWhile_first_sep: "sep \<notin> set c \<Longrightarrow> dropWhile (\<lambda>x. x \<noteq> sep) (c @ sep # r) = sep # r"
  by (induction c) auto

lemma SplitN_2_first_sep: "sep \<notin> set c \<Longrightarrow> SplitN (c @ sep # r) sep 2 = [c, r]"
  by (simp add: SplitN_2 takeWhile_first_sep dropWhile_first_sep)

lemma SplitN_2_length: "1 \<le> length (SplitN s sep 2) \<and> length (SplitN s sep 2) \<le> 2"
  by (simp add: SplitN_2)

lemma Atoi_Nil: "Atoi [] = None"
  by (simp add: Atoi_def)

lemma Atoi_range: "Atoi r = Some n \<Longrightarrow> - (2 ^ 63) \<le> n \<and> n \<le> 2 ^ 63 - 1"
  by (auto simp: Atoi_def Let_def split: if_splits)

lemma parseStatusCheck_no_colon:
  "CHR '':'' \<notin> set c \<Longrightarrow> parseStatusCheck c = Inr \<lparr>Context = c, IntegrationID = None\<rparr>"
  by (simp add: parseStatusCheck_def SplitN_2_no_sep)

lemma parseStatusCheck_colon:
  "CHR '':'' \<notin> set c \<Longrightarrow>
   parseStatusCheck (c @ CHR '':'' # r) =
     (if r = [] then Inr \<lparr>Context = c, IntegrationID = None\<rparr>
      else case Atoi r of
             None \<Rightarrow> Inl (InvalidIntegrationId r)
           | Some n \<Rightarrow> Inr \<lparr>Context = c, IntegrationID = Some n\<rparr>)"
  by (simp add: parseStatusCheck_def SplitN_2_first_sep)

lemma parseStatusCheck_examples:
  "parseStatusCheck ''ci/test:12345'' = Inr \<lparr>Context = ''ci/test'', IntegrationID = Some 12345\<rparr>"
  "parseStatusCheck ''ci/test'' = Inr \<lparr>Context = ''ci/test'', IntegrationID = None\<rparr>"
  "parseStatusCheck ''ci/test:abc'' = Inl (InvalidIntegrationId ''abc'')"
  by (simp_all add: parseStatusCheck_def SplitN_2 Atoi_def isDigit_def)

text \<open>
  C2, as the code has it. \<open>strings.SplitN(_, ":", 2)\<close> yields one or two parts. A token
  without a colon is the context alone. A token \<open>c:r\<close>, \<open>c\<close> free of colons, has context
  \<open>c\<close>; when \<open>r\<close> is not empty it must pass \<open>strconv.Atoi\<close>, the failure being
  \<open>InvalidIntegrationId r\<close> and the success the integration id, a value of \<open>int64\<close>. When
  \<open>r\<close> is empty (the token ends in its first colon) the source's test
  \<open>cIntegrationId != ""\<close> takes it for a token with no integration id, and nothing is
  parsed. The three tokens of the spec behave as it says.
\<close>

theorem parseStatusCheck_composite:
  "1 \<le> length (SplitN s CHR '':'' 2) \<and> length (SplitN s CHR '':'' 2) \<le> 2
   \<and> (CHR '':'' \<notin> set c \<longrightarrow>
        parseStatusCheck c = Inr \<lparr>Context = c, IntegrationID = None\<rparr>
        \<and> parseStatusCheck (c @ '':'') = Inr \<lparr>Context = c, IntegrationID = None\<rparr>
        \<and> (r \<noteq> [] \<and> Atoi r = None \<longrightarrow>
             parseStatusCheck (c @ '':'' @ r) = Inl (InvalidIntegrationId r))
        \<and> (Atoi r = Some n \<longrightarrow>
             parseStatusCheck (c @ '':'' @ r) = Inr \<lparr>Context = c, IntegrationID = Some n\<rparr>
             \<and> - (2 ^ 63) \<le> n \<and> n \<le> 2 ^ 63 - 1))
   \<and> parseStatusCheck ''ci/test:12345'' = Inr \<lparr>Context = ''ci/test'', IntegrationID = Some 12345\<rparr>
   \<and> parseStatusCheck ''ci/test'' = Inr \<lparr>Context = ''ci/test'', IntegrationID = None\<rparr>
   \<and> parseStatusCheck ''ci/test:abc'' = Inl (InvalidIntegrationId ''abc'')"
proof -
  have parts: "1 \<le> length (SplitN s CHR '':'' 2) \<and> length (SplitN s CHR '':'' 2) \<le> 2"
    by (rule SplitN_2_length)
  have general: "parseStatusCheck c = Inr \<lparr>Context = c, IntegrationID = None\<rparr>
        \<and> parseStatusCheck (c @ '':'') = Inr \<lparr>Context = c, IntegrationID = None\<rparr>
        \<and> (r \<noteq> [] \<and> Atoi r = None \<longrightarrow>
             parseStatusCheck (c @ '':'' @ r) = Inl (InvalidIntegrationId r))
        \<and> (Atoi r = Some n \<longrightarrow>
             parseStatusCheck (c @ '':'' @ r) = Inr \<lparr>Context = c, IntegrationID = Some n\<rparr>
             \<and> - (2 ^ 63) \<le> n \<and> n \<le> 2 ^ 63 - 1)"
    if c: "CHR '':'' \<notin> set c"
  proof -
    have "r \<noteq> []" if "Atoi r = Some n"
      using that Atoi_Nil by auto
    then show ?thesis
      using parseStatusCheck_no_colon [OF c] parseStatusCheck_colon [OF c, of r]
        parseStatusCheck_colon [OF c, of "[]"] Atoi_range [of r n]
      by auto
  qed
  show ?thesis
    using parts general parseStatusCheck_examples by blast
qed

theorem parseStatusCheck_composite_witness:
  "CHR '':'' \<notin> set ''build''
   \<and> parseStatusCheck ''build'' = Inr \<lparr>Context = ''build'', IntegrationID = None\<rparr>
   \<and> parseStatusCheck ''build:'' = Inr \<lparr>Context = ''build'', IntegrationID = None\<rparr>
   \<and> ''x1'' \<noteq> [] \<and> Atoi ''x1'' = None
   \<and> parseStatusCheck ''build:x1'' = Inl (InvalidIntegrationId ''x1'')
   \<and> Atoi ''-42'' = Some (- 42)
   \<and> parseStatusCheck ''build:-42'' = Inr \<lparr>Context = ''build'', IntegrationID = Some (- 42)\<rparr>"
proof -
  have a: "Atoi ''x1'' = None" and b: "Atoi ''-42'' = Some (- 42)"
    by (simp_all add: Atoi_def isDigit_def)
  show ?thesis
    using parseStatusCheck_composite [of "''build''" "''build''" "''x1''" 0]
      parseStatusCheck_composite [of "''build''" "''build''" "''-42''" "- 42"] a b
    by simp
qed

text \<open>
  The token \<open>ci/test:\<close> splits into exactly two parts, the second of which \<open>strconv.Atoi\<close>
  rejects, and yet it is accepted, with no integration id.
\<close>

theorem parseStatusCheck_empty_id_counterexample:
  "SplitN ''ci/test:'' CHR '':'' 2 = [''ci/test'', '''']
   \<and> Atoi '''' = None
   \<and> parseStatusCheck ''ci/test:'' = Inr \<lparr>Context = ''ci/test'', IntegrationID = None\<rparr>
   \<and> parseStatusCheck ''ci/test:'' \<noteq> Inl (InvalidIntegrationId '''')"
  by (simp add: parseStatusCheck_def SplitN_2 Atoi_def)

subsection \<open>The bypass actors\<close>

lemma expandBypassActors_loop_map:
  "expandBypassActors_loop bypassActors vL =
     bypassActors @ map (\<lambda>m. \<lparr>ActorID = Some (actor_id m), ActorType = Some (actor_type m)\<rparr>) vL"
  by (induction vL arbitrary: bypassActors) simp_all

text \<open>
  C9, as the code has it. \<open>expandBypassActors\<close> returns nil when \<open>bypass_actors\<close> is absent
  and also when it is present but empty: \<open>GetOk\<close> reports an empty set as not set, so the
  slice made with \<open>make(_, 0)\<close> is never returned empty. For a set that is not empty it
  returns one \<open>BypassActor\<close> per element, in order, with that element's \<open>actor_id\<close> and
  \<open>actor_type\<close>.
\<close>

theorem expandBypassActors_nil_or_each:
  "(bypass_actors d = None \<or> bypass_actors d = Some [] \<longrightarrow> expandBypassActors d = Inr None)
   \<and> (bypass_actors d = Some vL \<and> vL \<noteq> [] \<longrightarrow>
        expandBypassActors d =
          Inr (Some (map (\<lambda>m. \<lparr>ActorID = Some (actor_id m), ActorType = Some (actor_type m)\<rparr>) vL)))
   \<and> expandBypassActors d \<noteq> Inr (Some [])"
  by (auto simp: expandBypassActors_def expandBypassActors_loop_map GetOk_def
        split: option.splits)

theorem expandBypassActors_nil_or_each_witness:
  "bypass_actors unset = None \<and> expandBypassActors unset = Inr None
   \<and> bypass_actors (unset\<lparr>bypass_actors := Some []\<rparr>) = Some []
   \<and> expandBypassActors (unset\<lparr>bypass_actors := Some []\<rparr>) = Inr None
   \<and> [\<lparr>actor_id = 5, actor_type = ''RepositoryRole''\<rparr>,
       \<lparr>actor_id = 1, actor_type = ''OrganizationAdmin''\<rparr>] \<noteq> []
   \<and> expandBypassActors
        (unset\<lparr>bypass_actors :=
           Some [\<lparr>actor_id = 5, actor_type = ''RepositoryRole''\<rparr>,
                 \<lparr>actor_id = 1, actor_type = ''OrganizationAdmin''\<rparr>]\<rparr>)
      = Inr (Some [\<lparr>ActorID = Some 5, ActorType = Some ''RepositoryRole''\<rparr>,
                   \<lparr>ActorID = Some 1, ActorType = Some ''OrganizationAdmin''\<rparr>])"
  using expandBypassActors_nil_or_each [of unset]
    expandBypassActors_nil_or_each [of "unset\<lparr>bypass_actors := Some []\<rparr>"]
    expandBypassActors_nil_or_each
      [of "unset\<lparr>bypass_actors :=
             Some [\<lparr>actor_id = 5, actor_type = ''RepositoryRole''\<rparr>,
                   \<lparr>actor_id = 1, actor_type = ''OrganizationAdmin''\<rparr>]\<rparr>"
          "[\<lparr>actor_id = 5, actor_type = ''RepositoryRole''\<rparr>,
            \<lparr>actor_id = 1, actor_type = ''OrganizationAdmin''\<rparr>]"]
  by (simp add: unset_def)

text \<open>
  A \<open>bypass_actors\<close> block that is present but empty gives nil, not an empty sequence.
\<close>

theorem expandBypassActors_empty_counterexample:
  "bypass_actors (unset\<lparr>bypass_actors := Some []\<rparr>) = Some []
   \<and> expandBypassActors (unset\<lparr>bypass_actors := Some []\<rparr>) = Inr None
   \<and> expandBypassActors (unset\<lparr>bypass_actors := Some []\<rparr>) \<noteq> Inr (Some [])"
  by (simp add: expandBypassActors_def unset_def)

subsection \<open>The rule list\<close>

text \<open>
  What each part of \<open>expandRules\<close> appends: the loop over the toggles, then the three
  blocks in the order of the source, each at most one rule.
\<close>

lemma expandRules_toggle_loop_filter:
  "expandRules_toggle_loop d rs ruleNames =
     rs @ map (\<lambda>n. \<lparr>Type = n, Parameters = None\<rparr>)
            (filter (\<lambda>n. Get_bool d (''rule_'' @ n)) ruleNames)"
  by (induction ruleNames arbitrary: rs) simp_all

lemma toggles_explicit:
  "expandRules_toggle_loop d [] rules_toggleable =
     (if rule_creation d then [\<lparr>Type = ''creation'', Parameters = None\<rparr>] else [])
     @ (if rule_deletion d then [\<lparr>Type = ''deletion'', Parameters = None\<rparr>] else [])
     @ (if rule_required_linear_history d
        then [\<lparr>Type = ''required_linear_history'', Parameters = None\<rparr>] else [])
     @ (if rule_required_signatures d
        then [\<lparr>Type = ''required_signatures'', Parameters = None\<rparr>] else [])
     @ (if rule_non_fast_forward d
        then [\<lparr>Type = ''non_fast_forward'', Parameters = None\<rparr>] else [])"
  by (simp add: rules_toggleable_def Get_bool_def)

lemma requiredDeploymentEnvs_loop_append:
  "requiredDeploymentEnvs_loop acc envs = acc @ envs"
  by (induction envs arbitrary: acc) simp_all

lemma expandRules_required_deployments_eq:
  "expandRules_required_deployments d rs =
     rs @ (case GetOk (rule_required_deployments d) of
             None \<Rightarrow> []
           | Some envs \<Rightarrow> [requiredDeploymentRule envs])"
  by (simp add: expandRules_required_deployments_def requiredDeploymentEnvs_loop_append
        split: option.splits)

lemma short_list_cases:
  "length vL \<le> 1 \<Longrightarrow> vL = [] \<or> vL = [None] \<or> (\<exists>m. vL = [Some m])"
  by (cases vL) (auto simp: length_Suc_conv)

lemma pull_request_zero:
  "rule_pull_request d = None \<or> rule_pull_request d = Some [] \<or> rule_pull_request d = Some [None]
   \<Longrightarrow> expandRules_pull_request d rs = Inr rs"
  by (auto simp: expandRules_pull_request_def)


lemma pull_request_many:
  "rule_pull_request d = Some vL \<Longrightarrow> length vL > 1 \<Longrightarrow>
   expandRules_pull_request d rs = Inl (DuplicateRuleBlock ''pull_request'')"
  by (simp add: expandRules_pull_request_def)

lemma pull_request_Inr:
  assumes "expandRules_pull_request d rs = Inr rs'"
  shows "(rule_pull_request d = None \<or> rule_pull_request d = Some []
            \<or> rule_pull_request d = Some [None]) \<and> rs' = rs
         \<or> (\<exists>m. rule_pull_request d = Some [Some m] \<and> rs' = rs @ [pullRequestRule m])"
proof (cases "rule_pull_request d")
  case None
  then show ?thesis using assms by (simp add: expandRules_pull_request_def)
next
  case (Some vL)
  with assms have len: "length vL \<le> 1"
    by (cases "vL = []") (auto simp: expandRules_pull_request_def GetOk_def split: if_splits)
  from short_list_cases [OF len] Some assms show ?thesis
    by (auto simp: expandRules_pull_request_def)
qed

lemma status_checks_zero:
  "rule_required_status_checks d = None \<or> rule_required_status_checks d = Some []
     \<or> rule_required_status_checks d = Some [None]
   \<Longrightarrow> expandRules_required_status_checks d rs = Inr rs"
  by (auto simp: expandRules_required_status_checks_def)


lemma status_checks_many:
  "rule_required_status_checks d = Some vL \<Longrightarrow> length vL > 1 \<Longrightarrow>
   expandRules_required_status_checks d rs = Inl (DuplicateRuleBlock ''required_status_checks'')"
  by (simp add: expandRules_required_status_checks_def)

lemma status_checks_Inr:
  assumes "expandRules_required_status_checks d rs = Inr rs'"
  shows "(rule_required_status_checks d = None \<or> rule_required_status_checks d = Some []
            \<or> rule_required_status_checks d = Some [None]) \<and> rs' = rs
         \<or> (\<exists>m checks. rule_required_status_checks d = Some [Some m]
               \<and> requiredStatusChecks_loop [] (required_status_checks m) = Inr checks
               \<and> rs' = rs @ [requiredStatusChecksRule checks m])"
proof (cases "rule_required_status_checks d")
  case None
  then show ?thesis using assms by (simp add: expandRules_required_status_checks_def)
next
  case (Some vL)
  with assms have len: "length vL \<le> 1"
    by (cases "vL = []")
      (auto simp: expandRules_required_status_checks_def GetOk_def split: if_splits)
  from short_list_cases [OF len] Some assms show ?thesis
    by (auto simp: expandRules_required_status_checks_def split: sum.splits)
qed


lemma expandRules_Inr:
  assumes "expandRules d = Inr rs"
  shows "\<exists>ps cs. rs = expandRules_toggle_loop d [] rules_toggleable
           @ (case GetOk (rule_required_deployments d) of None \<Rightarrow> []
              | Some envs \<Rightarrow> [requiredDeploymentRule envs])
           @ ps @ cs
         \<and> ((rule_pull_request d = None \<or> rule_pull_request d = Some []
                \<or> rule_pull_request d = Some [None]) \<and> ps = []
              \<or> (\<exists>m. rule_pull_request d = Some [Some m] \<and> ps = [pullRequestRule m]))
         \<and> ((rule_required_status_checks d = None \<or> rule_required_status_checks d = Some []
                \<or> rule_required_status_checks d = Some [None]) \<and> cs = []
              \<or> (\<exists>m checks. rule_required_status_checks d = Some [Some m]
                    \<and> requiredStatusChecks_loop [] (required_status_checks m) = Inr checks
                    \<and> cs = [requiredStatusChecksRule checks m]))"
proof -
  let ?r1 = "expandRules_required_deployments d (expandRules_toggle_loop d [] rules_toggleable)"
  from assms obtain r2 where pr: "expandRules_pull_request d ?r1 = Inr r2"
    and sc: "expandRules_required_status_checks d r2 = Inr rs"
    by (auto simp: expandRules_def split: sum.splits)
  from pull_request_Inr [OF pr] obtain ps where ps: "r2 = ?r1 @ ps"
    "(rule_pull_request d = None \<or> rule_pull_request d = Some []
                \<or> rule_pull_request d = Some [None]) \<and> ps = []
              \<or> (\<exists>m. rule_pull_request d = Some [Some m] \<and> ps = [pullRequestRule m])"
    by auto
  from status_checks_Inr [OF sc] obtain cs where cs: "rs = r2 @ cs"
    "(rule_required_status_checks d = None \<or> rule_required_status_checks d = Some []
                \<or> rule_required_status_checks d = Some [None]) \<and> cs = []
              \<or> (\<exists>m checks. rule_required_status_checks d = Some [Some m]
                    \<and> requiredStatusChecks_loop [] (required_status_checks m) = Inr checks
                    \<and> cs = [requiredStatusChecksRule checks m])"
    by auto
  have "rs = expandRules_toggle_loop d [] rules_toggleable
           @ (case GetOk (rule_required_deployments d) of None \<Rightarrow> []
              | Some envs \<Rightarrow> [requiredDeploymentRule envs])
           @ ps @ cs"
    using ps(1) cs(1) by (simp add: expandRules_required_deployments_eq)
  with ps(2) cs(2) show ?thesis by blast
qed

lemma Type_simps [simp]:
  "Type (requiredDeploymentRule envs) = ''required_deployments''"
  "Type (pullRequestRule m) = ''pull_request''"
  "Type (requiredStatusChecksRule checks m') = ''required_status_checks''"
  by (simp_all add: requiredDeploymentRule_def pullRequestRule_def requiredStatusChecksRule_def)

lemma Parameters_Some [simp]:
  "\<exists>p. Parameters (requiredDeploymentRule envs) = Some p"
  "\<exists>p. Parameters (pullRequestRule m) = Some p"
  "\<exists>p. Parameters (requiredStatusChecksRule checks m') = Some p"
  by (simp_all add: requiredDeploymentRule_def pullRequestRule_def requiredStatusChecksRule_def)

lemmas expandRules_eval =
  expandRules_def expandRules_pull_request_def expandRules_required_deployments_def
  expandRules_required_status_checks_def rules_toggleable_def Get_bool_def
  requiredDeploymentRule_def pullRequestRule_def requiredStatusChecksRule_def
  parseStatusCheck_def SplitN_2 Atoi_def isDigit_def unset_def

lemma expandRules_map_Type:
  "expandRules d = Inr rs \<Longrightarrow>
   map Type rs =
     filter (\<lambda>n. Get_bool d (''rule_'' @ n)) rules_toggleable
     @ (case GetOk (rule_required_deployments d) of None \<Rightarrow> [] | Some envs \<Rightarrow> [''required_deployments''])
     @ (case rule_pull_request d of Some [Some m] \<Rightarrow> [''pull_request''] | _ \<Rightarrow> [])
     @ (case rule_required_status_checks d of
          Some [Some m] \<Rightarrow> [''required_status_checks''] | _ \<Rightarrow> [])"
proof -
  assume "expandRules d = Inr rs"
  from expandRules_Inr [OF this] obtain ps cs where
    rs: "rs = expandRules_toggle_loop d [] rules_toggleable
           @ (case GetOk (rule_required_deployments d) of None \<Rightarrow> []
              | Some envs \<Rightarrow> [requiredDeploymentRule envs])
           @ ps @ cs"
    and ps: "(rule_pull_request d = None \<or> rule_pull_request d = Some []
                \<or> rule_pull_request d = Some [None]) \<and> ps = []
              \<or> (\<exists>m. rule_pull_request d = Some [Some m] \<and> ps = [pullRequestRule m])"
    and cs: "(rule_required_status_checks d = None \<or> rule_required_status_checks d = Some []
                \<or> rule_required_status_checks d = Some [None]) \<and> cs = []
              \<or> (\<exists>m checks. rule_required_status_checks d = Some [Some m]
                    \<and> requiredStatusChecks_loop [] (required_status_checks m) = Inr checks
                    \<and> cs = [requiredStatusChecksRule checks m])"
    by blast
  have t: "map Type (expandRules_toggle_loop d [] rules_toggleable)
            = filter (\<lambda>n. Get_bool d (''rule_'' @ n)) rules_toggleable"
    by (simp add: expandRules_toggle_loop_filter comp_def)
  have dp: "map Type (case GetOk (rule_required_deployments d) of None \<Rightarrow> []
              | Some envs \<Rightarrow> [requiredDeploymentRule envs])
            = (case GetOk (rule_required_deployments d) of None \<Rightarrow> [] | Some envs \<Rightarrow> [''required_deployments''])"
    by (simp split: option.splits)
  have p: "map Type ps = (case rule_pull_request d of Some [Some m] \<Rightarrow> [''pull_request''] | _ \<Rightarrow> [])"
    using ps by auto
  have c: "map Type cs = (case rule_required_status_checks d of
          Some [Some m] \<Rightarrow> [''required_status_checks''] | _ \<Rightarrow> [])"
    using cs by auto
  show ?thesis
    unfolding rs map_append t dp p c ..
qed

text \<open>
  C10. In every rule list \<open>expandRules\<close> returns, the kinds appear in one fixed order: the
  toggles that are set, in the order of \<open>rules_toggleable\<close>, then \<open>required_deployments\<close>
  when \<open>GetOk\<close> reports that attribute set, then \<open>pull_request\<close> and then
  \<open>required_status_checks\<close>, each when its block holds a single element that is not nil.
\<close>

theorem expandRules_kind_order:
  "expandRules d = Inr rs \<Longrightarrow>
   map Type rs =
     filter (\<lambda>n. Get_bool d (''rule_'' @ n)) rules_toggleable
     @ (case GetOk (rule_required_deployments d) of None \<Rightarrow> [] | Some envs \<Rightarrow> [''required_deployments''])
     @ (case rule_pull_request d of Some [Some m] \<Rightarrow> [''pull_request''] | _ \<Rightarrow> [])
     @ (case rule_required_status_checks d of
          Some [Some m] \<Rightarrow> [''required_status_checks''] | _ \<Rightarrow> [])"
  by (rule expandRules_map_Type)

theorem expandRules_kind_order_witness:
  "expandRules
     (unset\<lparr>rule_creation := True, rule_non_fast_forward := True,
            rule_required_deployments := Some [''staging''],
            rule_pull_request := Some [Some \<lparr>dismiss_stale_reviews_on_push = True,
              require_code_owner_review = False, require_last_push_approval = False,
              required_approving_review_count = 2,
              required_review_thread_resolution = True\<rparr>],
            rule_required_status_checks := Some [Some \<lparr>required_status_checks = [''ci/a'', ''ci/b:99''],
              strict_required_status_checks_policy = True\<rparr>]\<rparr>)
   = Inr [\<lparr>Type = ''creation'', Parameters = None\<rparr>,
          \<lparr>Type = ''non_fast_forward'', Parameters = None\<rparr>,
          requiredDeploymentRule [''staging''],
          pullRequestRule \<lparr>dismiss_stale_reviews_on_push = True,
              require_code_owner_review = False, require_last_push_approval = False,
              required_approving_review_count = 2,
              required_review_thread_resolution = True\<rparr>,
          requiredStatusChecksRule
            [\<lparr>Context = ''ci/a'', IntegrationID = None\<rparr>,
             \<lparr>Context = ''ci/b'', IntegrationID = Some 99\<rparr>]
            \<lparr>required_status_checks = [''ci/a'', ''ci/b:99''],
              strict_required_status_checks_policy = True\<rparr>]
   \<and> map Type
        [\<lparr>Type = ''creation'', Parameters = None\<rparr>,
          \<lparr>Type = ''non_fast_forward'', Parameters = None\<rparr>,
          requiredDeploymentRule [''staging''],
          pullRequestRule \<lparr>dismiss_stale_reviews_on_push = True,
              require_code_owner_review = False, require_last_push_approval = False,
              required_approving_review_count = 2,
              required_review_thread_resolution = True\<rparr>,
          requiredStatusChecksRule
            [\<lparr>Context = ''ci/a'', IntegrationID = None\<rparr>,
             \<lparr>Context = ''ci/b'', IntegrationID = Some 99\<rparr>]
            \<lparr>required_status_checks = [''ci/a'', ''ci/b:99''],
              strict_required_status_checks_policy = True\<rparr>]
      = [''creation'', ''non_fast_forward'', ''required_deployments'', ''pull_request'',
         ''required_status_checks'']"
proof -
  let ?d = "unset\<lparr>rule_creation := True, rule_non_fast_forward := True,
            rule_required_deployments := Some [''staging''],
            rule_pull_request := Some [Some \<lparr>dismiss_stale_reviews_on_push = True,
              require_code_owner_review = False, require_last_push_approval = False,
              required_approving_review_count = 2,
              required_review_thread_resolution = True\<rparr>],
            rule_required_status_checks := Some [Some \<lparr>required_status_checks = [''ci/a'', ''ci/b:99''],
              strict_required_status_checks_policy = True\<rparr>]\<rparr>"
  let ?rs = "[\<lparr>Type = ''creation'', Parameters = None\<rparr>,
          \<lparr>Type = ''non_fast_forward'', Parameters = None\<rparr>,
          requiredDeploymentRule [''staging''],
          pullRequestRule \<lparr>dismiss_stale_reviews_on_push = True,
              require_code_owner_review = False, require_last_push_approval = False,
              required_approving_review_count = 2,
              required_review_thread_resolution = True\<rparr>,
          requiredStatusChecksRule
            [\<lparr>Context = ''ci/a'', IntegrationID = None\<rparr>,
             \<lparr>Context = ''ci/b'', IntegrationID = Some 99\<rparr>]
            \<lparr>required_status_checks = [''ci/a'', ''ci/b:99''],
              strict_required_status_checks_policy = True\<rparr>]"
  have run: "expandRules ?d = Inr ?rs"
    by (simp add: expandRules_eval)
  from expandRules_kind_order [OF run] run show ?thesis
    by (simp add: rules_toggleable_def Get_bool_def unset_def)
qed

text \<open>
  C5. Whatever the five toggles are set to, a rule list that \<open>expandRules\<close> returns starts
  with one parameterless rule per toggle that is true and none per toggle that is false,
  in the order creation, deletion, required_linear_history, required_signatures,
  non_fast_forward; every rule after them is a structured one, with parameters. When no
  structured attribute is set the call succeeds and returns exactly these toggle rules.
\<close>

theorem expandRules_toggles_first:
  "(expandRules d = Inr rs \<longrightarrow>
      (\<exists>ss. rs =
          (if rule_creation d then [\<lparr>Type = ''creation'', Parameters = None\<rparr>] else [])
          @ (if rule_deletion d then [\<lparr>Type = ''deletion'', Parameters = None\<rparr>] else [])
          @ (if rule_required_linear_history d
             then [\<lparr>Type = ''required_linear_history'', Parameters = None\<rparr>] else [])
          @ (if rule_required_signatures d
             then [\<lparr>Type = ''required_signatures'', Parameters = None\<rparr>] else [])
          @ (if rule_non_fast_forward d
             then [\<lparr>Type = ''non_fast_forward'', Parameters = None\<rparr>] else [])
          @ ss
        \<and> (\<forall>e \<in> set ss.
              Type e \<in> {''required_deployments'', ''pull_request'', ''required_status_checks''}
              \<and> Parameters e \<noteq> None)))
   \<and> (rule_required_deployments d = None \<and> rule_pull_request d = None
        \<and> rule_required_status_checks d = None \<longrightarrow>
        expandRules d = Inr
          ((if rule_creation d then [\<lparr>Type = ''creation'', Parameters = None\<rparr>] else [])
           @ (if rule_deletion d then [\<lparr>Type = ''deletion'', Parameters = None\<rparr>] else [])
           @ (if rule_required_linear_history d
              then [\<lparr>Type = ''required_linear_history'', Parameters = None\<rparr>] else [])
           @ (if rule_required_signatures d
              then [\<lparr>Type = ''required_signatures'', Parameters = None\<rparr>] else [])
           @ (if rule_non_fast_forward d
              then [\<lparr>Type = ''non_fast_forward'', Parameters = None\<rparr>] else [])))"
proof (intro conjI impI)
  assume "expandRules d = Inr rs"
  from expandRules_Inr [OF this] obtain ps cs where
    rs: "rs = expandRules_toggle_loop d [] rules_toggleable
           @ (case GetOk (rule_required_deployments d) of None \<Rightarrow> []
              | Some envs \<Rightarrow> [requiredDeploymentRule envs])
           @ ps @ cs"
    and ps: "ps = [] \<or> (\<exists>m. ps = [pullRequestRule m])"
    and cs: "cs = [] \<or> (\<exists>m checks. cs = [requiredStatusChecksRule checks m])"
    by blast
  let ?ss = "(case GetOk (rule_required_deployments d) of None \<Rightarrow> []
              | Some envs \<Rightarrow> [requiredDeploymentRule envs]) @ ps @ cs"
  have kinds: "\<forall>e \<in> set ?ss.
          Type e \<in> {''required_deployments'', ''pull_request'', ''required_status_checks''}
          \<and> Parameters e \<noteq> None"
    using ps cs by (auto split: option.splits)
  have "rs = expandRules_toggle_loop d [] rules_toggleable @ ?ss"
    using rs by simp
  then have split: "rs =
          (if rule_creation d then [\<lparr>Type = ''creation'', Parameters = None\<rparr>] else [])
          @ (if rule_deletion d then [\<lparr>Type = ''deletion'', Parameters = None\<rparr>] else [])
          @ (if rule_required_linear_history d
             then [\<lparr>Type = ''required_linear_history'', Parameters = None\<rparr>] else [])
          @ (if rule_required_signatures d
             then [\<lparr>Type = ''required_signatures'', Parameters = None\<rparr>] else [])
          @ (if rule_non_fast_forward d
             then [\<lparr>Type = ''non_fast_forward'', Parameters = None\<rparr>] else [])
          @ ?ss"
    by (simp only: toggles_explicit append_assoc)
  show "\<exists>ss. rs =
          (if rule_creation d then [\<lparr>Type = ''creation'', Parameters = None\<rparr>] else [])
          @ (if rule_deletion d then [\<lparr>Type = ''deletion'', Parameters = None\<rparr>] else [])
          @ (if rule_required_linear_history d
             then [\<lparr>Type = ''required_linear_history'', Parameters = None\<rparr>] else [])
          @ (if rule_required_signatures d
             then [\<lparr>Type = ''required_signatures'', Parameters = None\<rparr>] else [])
          @ (if rule_non_fast_forward d
             then [\<lparr>Type = ''non_fast_forward'', Parameters = None\<rparr>] else [])
          @ ss
        \<and> (\<forall>e \<in> set ss.
              Type e \<in> {''required_deployments'', ''pull_request'', ''required_status_checks''}
              \<and> Parameters e \<noteq> None)"
    by (rule exI [of _ ?ss], rule conjI, rule split, rule kinds)
next
  assume "rule_required_deployments d = None \<and> rule_pull_request d = None
        \<and> rule_required_status_checks d = None"
  then have "expandRules d = Inr (expandRules_toggle_loop d [] rules_toggleable)"
    by (simp add: expandRules_def expandRules_required_deployments_eq pull_request_zero
          status_checks_zero)
  then show "expandRules d = Inr
          ((if rule_creation d then [\<lparr>Type = ''creation'', Parameters = None\<rparr>] else [])
           @ (if rule_deletion d then [\<lparr>Type = ''deletion'', Parameters = None\<rparr>] else [])
           @ (if rule_required_linear_history d
              then [\<lparr>Type = ''required_linear_history'', Parameters = None\<rparr>] else [])
           @ (if rule_required_signatures d
              then [\<lparr>Type = ''required_signatures'', Parameters = None\<rparr>] else [])
           @ (if rule_non_fast_forward d
              then [\<lparr>Type = ''non_fast_forward'', Parameters = None\<rparr>] else []))"
    by (simp only: toggles_explicit)
qed


theorem expandRules_toggles_first_witness:
  "expandRules (unset\<lparr>rule_deletion := True, rule_required_signatures := True,
                      rule_required_deployments := Some [''staging'']\<rparr>)
     = Inr [\<lparr>Type = ''deletion'', Parameters = None\<rparr>,
            \<lparr>Type = ''required_signatures'', Parameters = None\<rparr>,
            requiredDeploymentRule [''staging'']]
   \<and> (\<exists>ss. [\<lparr>Type = ''deletion'', Parameters = None\<rparr>,
              \<lparr>Type = ''required_signatures'', Parameters = None\<rparr>,
              requiredDeploymentRule [''staging'']]
             = [\<lparr>Type = ''deletion'', Parameters = None\<rparr>,
                \<lparr>Type = ''required_signatures'', Parameters = None\<rparr>] @ ss
           \<and> (\<forall>e \<in> set ss.
                 Type e \<in> {''required_deployments'', ''pull_request'', ''required_status_checks''}
                 \<and> Parameters e \<noteq> None))
   \<and> rule_required_deployments (unset\<lparr>rule_creation := True, rule_non_fast_forward := True\<rparr>) = None
   \<and> rule_pull_request (unset\<lparr>rule_creation := True, rule_non_fast_forward := True\<rparr>) = None
   \<and> rule_required_status_checks (unset\<lparr>rule_creation := True, rule_non_fast_forward := True\<rparr>) = None
   \<and> expandRules (unset\<lparr>rule_creation := True, rule_non_fast_forward := True\<rparr>)
     = Inr [\<lparr>Type = ''creation'', Parameters = None\<rparr>,
            \<lparr>Type = ''non_fast_forward'', Parameters = None\<rparr>]"
proof -
  let ?d = "unset\<lparr>rule_deletion := True, rule_required_signatures := True,
                      rule_required_deployments := Some [''staging'']\<rparr>"
  let ?rs = "[\<lparr>Type = ''deletion'', Parameters = None\<rparr>,
            \<lparr>Type = ''required_signatures'', Parameters = None\<rparr>,
            requiredDeploymentRule [''staging'']]"
  let ?d' = "unset\<lparr>rule_creation := True, rule_non_fast_forward := True\<rparr>"
  have run: "expandRules ?d = Inr ?rs"
    by (simp add: expandRules_eval)
  have unset': "rule_required_deployments ?d' = None \<and> rule_pull_request ?d' = None
      \<and> rule_required_status_checks ?d' = None"
    by (simp add: unset_def)
  have fields: "rule_creation ?d' \<and> \<not> rule_deletion ?d' \<and> \<not> rule_required_linear_history ?d'
      \<and> \<not> rule_required_signatures ?d' \<and> rule_non_fast_forward ?d'"
    "\<not> rule_creation ?d \<and> rule_deletion ?d \<and> \<not> rule_required_linear_history ?d
      \<and> rule_required_signatures ?d \<and> \<not> rule_non_fast_forward ?d"
    by (simp_all add: unset_def)
  from expandRules_toggles_first [of ?d ?rs] expandRules_toggles_first [of ?d' "[]"] run unset' fields
  show ?thesis
    by simp
qed


lemma not_in_toggles:
  "''pull_request'' \<notin> set rules_toggleable"
  "''required_status_checks'' \<notin> set rules_toggleable"
  "''required_deployments'' \<notin> set rules_toggleable"
  by (simp_all add: rules_toggleable_def)




lemma filter_kind_toggles:
  "k \<notin> set ruleNames \<Longrightarrow>
   filter (\<lambda>e. Type e = k) (expandRules_toggle_loop d [] ruleNames) = []"
  by (auto simp: expandRules_toggle_loop_filter filter_empty_conv)

text \<open>The rules of one kind in a list that \<open>expandRules\<close> returns.\<close>

lemma expandRules_filter_kind:
  assumes "expandRules d = Inr rs"
  shows "filter (\<lambda>e. Type e = ''required_deployments'') rs =
           (case GetOk (rule_required_deployments d) of
              None \<Rightarrow> [] | Some envs \<Rightarrow> [requiredDeploymentRule envs])"
    and "filter (\<lambda>e. Type e = ''pull_request'') rs =
           (case rule_pull_request d of Some [Some m] \<Rightarrow> [pullRequestRule m] | _ \<Rightarrow> [])"
    and "filter (\<lambda>e. Type e = ''required_status_checks'') rs =
           (case rule_required_status_checks d of
              Some [Some m] \<Rightarrow>
                (case requiredStatusChecks_loop [] (required_status_checks m) of
                   Inl e \<Rightarrow> []
                 | Inr checks \<Rightarrow> [requiredStatusChecksRule checks m])
            | _ \<Rightarrow> [])"
proof -
  from expandRules_Inr [OF assms] obtain ps cs where
    rs: "rs = expandRules_toggle_loop d [] rules_toggleable
           @ (case GetOk (rule_required_deployments d) of None \<Rightarrow> []
              | Some envs \<Rightarrow> [requiredDeploymentRule envs])
           @ ps @ cs"
    and ps: "(rule_pull_request d = None \<or> rule_pull_request d = Some []
                \<or> rule_pull_request d = Some [None]) \<and> ps = []
              \<or> (\<exists>m. rule_pull_request d = Some [Some m] \<and> ps = [pullRequestRule m])"
    and cs: "(rule_required_status_checks d = None \<or> rule_required_status_checks d = Some []
                \<or> rule_required_status_checks d = Some [None]) \<and> cs = []
              \<or> (\<exists>m checks. rule_required_status_checks d = Some [Some m]
                    \<and> requiredStatusChecks_loop [] (required_status_checks m) = Inr checks
                    \<and> cs = [requiredStatusChecksRule checks m])"
    by blast
  have p: "ps = (case rule_pull_request d of Some [Some m] \<Rightarrow> [pullRequestRule m] | _ \<Rightarrow> [])"
    using ps by auto
  have c: "cs = (case rule_required_status_checks d of
              Some [Some m] \<Rightarrow>
                (case requiredStatusChecks_loop [] (required_status_checks m) of
                   Inl e \<Rightarrow> []
                 | Inr checks \<Rightarrow> [requiredStatusChecksRule checks m])
            | _ \<Rightarrow> [])"
    using cs by auto
  have kp: "\<forall>e \<in> set ps. Type e = ''pull_request''"
    and kc: "\<forall>e \<in> set cs. Type e = ''required_status_checks''"
    using ps cs by auto
  show "filter (\<lambda>e. Type e = ''required_deployments'') rs =
           (case GetOk (rule_required_deployments d) of
              None \<Rightarrow> [] | Some envs \<Rightarrow> [requiredDeploymentRule envs])"
    unfolding rs using kp kc
    by (auto simp: filter_kind_toggles not_in_toggles filter_empty_conv split: option.splits)
  show "filter (\<lambda>e. Type e = ''pull_request'') rs =
           (case rule_pull_request d of Some [Some m] \<Rightarrow> [pullRequestRule m] | _ \<Rightarrow> [])"
    unfolding p [symmetric] unfolding rs using kp kc
    by (auto simp: filter_kind_toggles not_in_toggles filter_empty_conv filter_id_conv
          split: option.splits)
  show "filter (\<lambda>e. Type e = ''required_status_checks'') rs =
           (case rule_required_status_checks d of
              Some [Some m] \<Rightarrow>
                (case requiredStatusChecks_loop [] (required_status_checks m) of
                   Inl e \<Rightarrow> []
                 | Inr checks \<Rightarrow> [requiredStatusChecksRule checks m])
            | _ \<Rightarrow> [])"
    unfolding c [symmetric] unfolding rs using kp kc
    by (auto simp: filter_kind_toggles not_in_toggles filter_empty_conv filter_id_conv
          split: option.splits)
qed

text \<open>When \<open>expandRules\<close> fails and when it succeeds.\<close>

lemma expandRules_pull_request_duplicate:
  "rule_pull_request d = Some (v # v' # vs) \<Longrightarrow>
   expandRules d = Inl (DuplicateRuleBlock ''pull_request'')"
  by (simp add: expandRules_def expandRules_pull_request_def)

lemma pull_request_short:
  "rule_pull_request d = None \<or> rule_pull_request d = Some [] \<or> rule_pull_request d = Some [p]
   \<Longrightarrow> \<exists>rs'. expandRules_pull_request d rs = Inr rs'"
  by (cases p) (auto simp: expandRules_pull_request_def)

lemma expandRules_after_pull_request:
  assumes "rule_pull_request d = None \<or> rule_pull_request d = Some []
             \<or> rule_pull_request d = Some [p]"
  shows "\<exists>r. expandRules d = expandRules_required_status_checks d r"
proof -
  from pull_request_short [OF assms] obtain r where
    "expandRules_pull_request d
       (expandRules_required_deployments d (expandRules_toggle_loop d [] rules_toggleable))
     = Inr r"
    by blast
  then have "expandRules d = expandRules_required_status_checks d r"
    by (simp add: expandRules_def)
  then show ?thesis ..
qed

lemma expandRules_status_checks_duplicate:
  assumes "rule_pull_request d = None \<or> rule_pull_request d = Some []
             \<or> rule_pull_request d = Some [p]"
    and "rule_required_status_checks d = Some (v # v' # vs)"
  shows "expandRules d = Inl (DuplicateRuleBlock ''required_status_checks'')"
  using expandRules_after_pull_request [OF assms(1)] assms(2)
  by (auto simp: expandRules_required_status_checks_def)



text \<open>\<open>buildRulesetRequest\<close> in terms of \<open>expandConditions\<close> and \<open>expandRules\<close>.\<close>

lemma expandConditions_loop_Inr: "\<exists>c. expandConditions_loop rulesetConditions vL = Inr c"
  by (induction rulesetConditions vL rule: expandConditions_loop.induct) simp_all

lemma expandConditions_duplicate:
  "conditions d = Some (c # c' # cs) \<Longrightarrow> expandConditions d = Inl DuplicateConditionsBlock"
  by (simp add: expandConditions_def)

lemma expandConditions_short:
  "conditions d = None \<or> conditions d = Some [] \<or> conditions d = Some [c]
   \<Longrightarrow> \<exists>r. expandConditions d = Inr r"
  using expandConditions_loop_Inr [of "\<lparr>Include = [], Exclude = []\<rparr>" "[c]"]
  by (auto simp: expandConditions_def)

lemma buildRulesetRequest_Inl:
  assumes "expandRules d = Inl e"
  shows "buildRulesetRequest d sourceType =
           Inl (case conditions d of
                  Some (c # c' # cs) \<Rightarrow> DuplicateConditionsBlock
                | _ \<Rightarrow> e)"
proof (cases "\<exists>c c' cs. conditions d = Some (c # c' # cs)")
  case True
  then show ?thesis
    by (auto simp: buildRulesetRequest_def expandBypassActors_def expandConditions_duplicate
          split: option.splits)
next
  case False
  then have short: "conditions d = None \<or> conditions d = Some []
      \<or> (\<exists>c. conditions d = Some [c])"
    by (cases "conditions d"; cases "the (conditions d)"; cases "tl (the (conditions d))") auto
  then obtain r where r: "expandConditions d = Inr r"
    using expandConditions_short by blast
  have "(case conditions d of
           Some (c # c' # cs) \<Rightarrow> DuplicateConditionsBlock
         | _ \<Rightarrow> e) = e"
    using short by auto
  then show ?thesis
    using r assms
    by (simp add: buildRulesetRequest_def expandBypassActors_def split: option.splits)
qed

lemma buildRulesetRequest_Inr:
  "buildRulesetRequest d sourceType = Inr req \<Longrightarrow> expandRules d = Inr (Rules req)"
  by (auto simp: buildRulesetRequest_def split: sum.splits)

text \<open>The errors \<open>expandRules\<close> and \<open>buildRulesetRequest\<close> can return.\<close>

lemma parseStatusCheck_Inl:
  "parseStatusCheck statusCheck = Inl e \<Longrightarrow> \<exists>v. e = InvalidIntegrationId v"
  by (auto simp: parseStatusCheck_def SplitN_2 split: if_splits option.splits)

lemma requiredStatusChecks_loop_Inl:
  "requiredStatusChecks_loop acc toks = Inl e \<Longrightarrow> \<exists>v. e = InvalidIntegrationId v"
proof (induction toks arbitrary: acc)
  case Nil
  then show ?case by simp
next
  case (Cons t toks)
  then show ?case
    by (cases "parseStatusCheck t") (auto dest: parseStatusCheck_Inl)
qed

lemma status_checks_Inl:
  assumes "expandRules_required_status_checks d rs = Inl e"
  shows "(\<exists>v v' vs. rule_required_status_checks d = Some (v # v' # vs))
           \<and> e = DuplicateRuleBlock ''required_status_checks''
         \<or> (\<exists>m v. rule_required_status_checks d = Some [Some m] \<and> e = InvalidIntegrationId v)"
proof (cases "rule_required_status_checks d")
  case None
  then show ?thesis using assms by (simp add: expandRules_required_status_checks_def)
next
  case (Some vL)
  show ?thesis
  proof (cases "length vL \<le> 1")
    case True
    from short_list_cases [OF True] consider "vL = []" | "vL = [None]" | m where "vL = [Some m]"
      by blast
    then show ?thesis
    proof cases
      case 1
      with Some assms show ?thesis by (simp add: expandRules_required_status_checks_def)
    next
      case 2
      with Some assms show ?thesis by (simp add: expandRules_required_status_checks_def)
    next
      case 3
      with Some assms have "requiredStatusChecks_loop [] (required_status_checks m) = Inl e"
        by (simp add: expandRules_required_status_checks_def split: sum.splits)
      from requiredStatusChecks_loop_Inl [OF this] 3 Some show ?thesis by blast
    qed
  next
    case False
    then obtain v v' vs where "vL = v # v' # vs"
      by (cases vL; cases "tl vL") auto
    with Some assms show ?thesis
      by (auto simp: expandRules_required_status_checks_def)
  qed
qed

lemma pull_request_Inl:
  assumes "expandRules_pull_request d rs = Inl e"
  shows "(\<exists>v v' vs. rule_pull_request d = Some (v # v' # vs))
           \<and> e = DuplicateRuleBlock ''pull_request''"
proof (cases "rule_pull_request d")
  case None
  then show ?thesis using assms by (simp add: expandRules_pull_request_def)
next
  case (Some vL)
  show ?thesis
  proof (cases "length vL \<le> 1")
    case True
    from short_list_cases [OF True] Some assms show ?thesis
      by (auto simp: expandRules_pull_request_def)
  next
    case False
    then obtain v v' vs where "vL = v # v' # vs"
      by (cases vL; cases "tl vL") auto
    with Some assms show ?thesis
      by (auto simp: expandRules_pull_request_def)
  qed
qed

lemma expandRules_Inl:
  assumes "expandRules d = Inl e"
  shows "(\<exists>v v' vs. rule_pull_request d = Some (v # v' # vs))
           \<and> e = DuplicateRuleBlock ''pull_request''
         \<or> (\<exists>v v' vs. rule_required_status_checks d = Some (v # v' # vs))
           \<and> e = DuplicateRuleBlock ''required_status_checks''
         \<or> (\<exists>m v. rule_required_status_checks d = Some [Some m] \<and> e = InvalidIntegrationId v)"
proof (cases "expandRules_pull_request d
       (expandRules_required_deployments d (expandRules_toggle_loop d [] rules_toggleable))")
  case (Inl e')
  with assms have "e' = e" by (simp add: expandRules_def)
  with pull_request_Inl [OF Inl] show ?thesis by blast
next
  case (Inr r)
  with assms have "expandRules_required_status_checks d r = Inl e"
    by (simp add: expandRules_def)
  from status_checks_Inl [OF this] show ?thesis by blast
qed

lemma expandConditions_Inl:
  assumes "expandConditions d = Inl e"
  shows "e = DuplicateConditionsBlock \<and> (\<exists>c c' cs. conditions d = Some (c # c' # cs))"
proof (cases "\<exists>c c' cs. conditions d = Some (c # c' # cs)")
  case True
  with assms show ?thesis by (auto simp: expandConditions_duplicate)
next
  case False
  then have "conditions d = None \<or> conditions d = Some [] \<or> (\<exists>c. conditions d = Some [c])"
    by (cases "conditions d"; cases "the (conditions d)"; cases "tl (the (conditions d))") auto
  then obtain r where "expandConditions d = Inr r"
    using expandConditions_short by blast
  with assms show ?thesis by simp
qed

lemma buildRulesetRequest_Inl_cases:
  assumes "buildRulesetRequest d sourceType = Inl e"
  shows "e = DuplicateConditionsBlock \<and> (\<exists>c c' cs. conditions d = Some (c # c' # cs))
         \<or> expandRules d = Inl e"
proof (cases "expandConditions d")
  case (Inl e')
  with assms have "e' = e"
    by (simp add: buildRulesetRequest_def expandBypassActors_def split: option.splits)
  with expandConditions_Inl [OF Inl] show ?thesis by blast
next
  case (Inr r)
  with assms have "expandRules d = Inl e"
    by (simp add: buildRulesetRequest_def expandBypassActors_def
          split: option.splits sum.splits)
  then show ?thesis ..
qed

lemma long_list: "length vL > 1 \<Longrightarrow> \<exists>v v' vs. vL = v # v' # vs"
  by (cases vL; cases "tl vL") auto

text \<open>
  C3, as the code has it. Only \<open>rule_pull_request\<close> and \<open>rule_required_status_checks\<close> are
  lists of blocks with a length test.
  \<^item> More than one \<open>rule_pull_request\<close> element makes \<open>expandRules\<close> fail with
    \<open>DuplicateRuleBlock ''pull_request''\<close>. More than one \<open>rule_required_status_checks\<close>
    element makes it fail too, with \<open>DuplicateRuleBlock ''required_status_checks''\<close> unless
    the pull-request block, tested first, is duplicated as well. \<open>buildRulesetRequest\<close>
    fails with the same error, unless the conditions block, built first, is duplicated:
    then it fails with \<open>DuplicateConditionsBlock\<close>.
  \<^item> A block that is unset or empty makes its part of \<open>expandRules\<close> return the list it
    was given; neither \<open>expandRules\<close> nor \<open>buildRulesetRequest\<close> then fails with that kind's
    \<open>DuplicateRuleBlock\<close>, and no rule of that kind is in a list they return.
  \<^item> \<open>rule_required_deployments\<close> is a set of environment names with no length test.
    Unset or empty it adds no rule. Otherwise, whatever its size, it adds exactly one
    rule, whose parameters hold all the names in the order of the set.
\<close>

theorem expandRules_block_occurrence:
  "(rule_pull_request d = Some vL \<and> length vL > 1 \<longrightarrow>
      expandRules d = Inl (DuplicateRuleBlock ''pull_request'')
      \<and> buildRulesetRequest d sourceType =
          Inl (case conditions d of
                 Some (c # c' # cs) \<Rightarrow> DuplicateConditionsBlock
               | _ \<Rightarrow> DuplicateRuleBlock ''pull_request''))
   \<and> (rule_required_status_checks d = Some vL' \<and> length vL' > 1 \<longrightarrow>
        expandRules d =
          Inl (DuplicateRuleBlock
                 (case rule_pull_request d of
                    Some (v # v' # vs) \<Rightarrow> ''pull_request''
                  | _ \<Rightarrow> ''required_status_checks''))
        \<and> buildRulesetRequest d sourceType =
            Inl (case conditions d of
                   Some (c # c' # cs) \<Rightarrow> DuplicateConditionsBlock
                 | _ \<Rightarrow> DuplicateRuleBlock
                         (case rule_pull_request d of
                            Some (v # v' # vs) \<Rightarrow> ''pull_request''
                          | _ \<Rightarrow> ''required_status_checks'')))
   \<and> (rule_pull_request d = None \<or> rule_pull_request d = Some [] \<longrightarrow>
        expandRules_pull_request d rs = Inr rs
        \<and> expandRules d \<noteq> Inl (DuplicateRuleBlock ''pull_request'')
        \<and> buildRulesetRequest d sourceType \<noteq> Inl (DuplicateRuleBlock ''pull_request'')
        \<and> (\<forall>rs'. expandRules d = Inr rs' \<longrightarrow> ''pull_request'' \<notin> Type ` set rs')
        \<and> (\<forall>req. buildRulesetRequest d sourceType = Inr req \<longrightarrow>
               ''pull_request'' \<notin> Type ` set (Rules req)))
   \<and> (rule_required_status_checks d = None \<or> rule_required_status_checks d = Some [] \<longrightarrow>
        expandRules_required_status_checks d rs = Inr rs
        \<and> expandRules d \<noteq> Inl (DuplicateRuleBlock ''required_status_checks'')
        \<and> buildRulesetRequest d sourceType \<noteq> Inl (DuplicateRuleBlock ''required_status_checks'')
        \<and> (\<forall>rs'. expandRules d = Inr rs' \<longrightarrow> ''required_status_checks'' \<notin> Type ` set rs')
        \<and> (\<forall>req. buildRulesetRequest d sourceType = Inr req \<longrightarrow>
               ''required_status_checks'' \<notin> Type ` set (Rules req)))
   \<and> (rule_required_deployments d = None \<or> rule_required_deployments d = Some [] \<longrightarrow>
        expandRules_required_deployments d rs = rs
        \<and> (\<forall>rs'. expandRules d = Inr rs' \<longrightarrow> ''required_deployments'' \<notin> Type ` set rs')
        \<and> (\<forall>req. buildRulesetRequest d sourceType = Inr req \<longrightarrow>
               ''required_deployments'' \<notin> Type ` set (Rules req)))
   \<and> (rule_required_deployments d = Some envs \<and> envs \<noteq> [] \<longrightarrow>
        expandRules_required_deployments d rs =
          rs @ [\<lparr>Type = ''required_deployments'',
                 Parameters = Some (Marshal_RequiredDeployments
                   \<lparr>RequiredDeploymentEnvironments = envs\<rparr>)\<rparr>]
        \<and> (\<forall>rs'. expandRules d = Inr rs' \<longrightarrow>
               filter (\<lambda>e. Type e = ''required_deployments'') rs' =
                 [\<lparr>Type = ''required_deployments'',
                   Parameters = Some (Marshal_RequiredDeployments
                     \<lparr>RequiredDeploymentEnvironments = envs\<rparr>)\<rparr>])
        \<and> (\<forall>req. buildRulesetRequest d sourceType = Inr req \<longrightarrow>
               filter (\<lambda>e. Type e = ''required_deployments'') (Rules req) =
                 [\<lparr>Type = ''required_deployments'',
                   Parameters = Some (Marshal_RequiredDeployments
                     \<lparr>RequiredDeploymentEnvironments = envs\<rparr>)\<rparr>]))"
proof -
  have pr_many: "expandRules d = Inl (DuplicateRuleBlock ''pull_request'')
      \<and> buildRulesetRequest d sourceType =
          Inl (case conditions d of
                 Some (c # c' # cs) \<Rightarrow> DuplicateConditionsBlock
               | _ \<Rightarrow> DuplicateRuleBlock ''pull_request'')"
    if "rule_pull_request d = Some vL \<and> length vL > 1"
  proof -
    from that long_list obtain v v' vs where "rule_pull_request d = Some (v # v' # vs)"
      by blast
    then have "expandRules d = Inl (DuplicateRuleBlock ''pull_request'')"
      by (rule expandRules_pull_request_duplicate)
    with buildRulesetRequest_Inl [OF this, of sourceType] show ?thesis by simp
  qed
  have sc_many: "expandRules d =
          Inl (DuplicateRuleBlock
                 (case rule_pull_request d of
                    Some (v # v' # vs) \<Rightarrow> ''pull_request''
                  | _ \<Rightarrow> ''required_status_checks''))
        \<and> buildRulesetRequest d sourceType =
            Inl (case conditions d of
                   Some (c # c' # cs) \<Rightarrow> DuplicateConditionsBlock
                 | _ \<Rightarrow> DuplicateRuleBlock
                         (case rule_pull_request d of
                            Some (v # v' # vs) \<Rightarrow> ''pull_request''
                          | _ \<Rightarrow> ''required_status_checks''))"
    if "rule_required_status_checks d = Some vL' \<and> length vL' > 1"
  proof -
    from that long_list obtain w w' ws where sc: "rule_required_status_checks d = Some (w # w' # ws)"
      by blast
    have "expandRules d =
          Inl (DuplicateRuleBlock
                 (case rule_pull_request d of
                    Some (v # v' # vs) \<Rightarrow> ''pull_request''
                  | _ \<Rightarrow> ''required_status_checks''))"
    proof (cases "\<exists>v v' vs. rule_pull_request d = Some (v # v' # vs)")
      case True
      then show ?thesis
        by (auto simp: expandRules_pull_request_duplicate)
    next
      case False
      then have short: "rule_pull_request d = None \<or> rule_pull_request d = Some []
          \<or> (\<exists>p. rule_pull_request d = Some [p])"
        by (cases "rule_pull_request d"; cases "the (rule_pull_request d)";
            cases "tl (the (rule_pull_request d))") auto
      then obtain p where "rule_pull_request d = None \<or> rule_pull_request d = Some []
          \<or> rule_pull_request d = Some [p]"
        by blast
      from expandRules_status_checks_duplicate [OF this sc] short show ?thesis
        by auto
    qed
    with buildRulesetRequest_Inl [OF this, of sourceType] show ?thesis by simp
  qed
  have pr_zero: "expandRules_pull_request d rs = Inr rs
        \<and> expandRules d \<noteq> Inl (DuplicateRuleBlock ''pull_request'')
        \<and> buildRulesetRequest d sourceType \<noteq> Inl (DuplicateRuleBlock ''pull_request'')
        \<and> (\<forall>rs'. expandRules d = Inr rs' \<longrightarrow> ''pull_request'' \<notin> Type ` set rs')
        \<and> (\<forall>req. buildRulesetRequest d sourceType = Inr req \<longrightarrow>
               ''pull_request'' \<notin> Type ` set (Rules req))"
    if z: "rule_pull_request d = None \<or> rule_pull_request d = Some []"
  proof -
    have part: "expandRules_pull_request d rs = Inr rs"
      using z by (auto simp: expandRules_pull_request_def)
    have err: "expandRules d \<noteq> Inl (DuplicateRuleBlock ''pull_request'')"
      using expandRules_Inl [of d "DuplicateRuleBlock ''pull_request''"] z by auto
    have err': "buildRulesetRequest d sourceType \<noteq> Inl (DuplicateRuleBlock ''pull_request'')"
      using buildRulesetRequest_Inl_cases [of d sourceType "DuplicateRuleBlock ''pull_request''"] err
      by auto
    have none: "''pull_request'' \<notin> Type ` set rs'" if r: "expandRules d = Inr rs'" for rs'
    proof -
      have "filter (\<lambda>e. Type e = ''pull_request'') rs' = []"
        using expandRules_filter_kind(2) [OF r] z by auto
      then show ?thesis by (auto simp: filter_empty_conv)
    qed
    from part err err' none buildRulesetRequest_Inr [of d sourceType] show ?thesis
      by blast
  qed
  have sc_zero: "expandRules_required_status_checks d rs = Inr rs
        \<and> expandRules d \<noteq> Inl (DuplicateRuleBlock ''required_status_checks'')
        \<and> buildRulesetRequest d sourceType \<noteq> Inl (DuplicateRuleBlock ''required_status_checks'')
        \<and> (\<forall>rs'. expandRules d = Inr rs' \<longrightarrow> ''required_status_checks'' \<notin> Type ` set rs')
        \<and> (\<forall>req. buildRulesetRequest d sourceType = Inr req \<longrightarrow>
               ''required_status_checks'' \<notin> Type ` set (Rules req))"
    if z: "rule_required_status_checks d = None \<or> rule_required_status_checks d = Some []"
  proof -
    have part: "expandRules_required_status_checks d rs = Inr rs"
      using z by (auto simp: expandRules_required_status_checks_def)
    have err: "expandRules d \<noteq> Inl (DuplicateRuleBlock ''required_status_checks'')"
      using expandRules_Inl [of d "DuplicateRuleBlock ''required_status_checks''"] z by auto
    have err': "buildRulesetRequest d sourceType
        \<noteq> Inl (DuplicateRuleBlock ''required_status_checks'')"
      using buildRulesetRequest_Inl_cases
              [of d sourceType "DuplicateRuleBlock ''required_status_checks''"] err
      by auto
    have none: "''required_status_checks'' \<notin> Type ` set rs'"
      if r: "expandRules d = Inr rs'" for rs'
    proof -
      have "filter (\<lambda>e. Type e = ''required_status_checks'') rs' = []"
        using expandRules_filter_kind(3) [OF r] z by auto
      then show ?thesis by (auto simp: filter_empty_conv)
    qed
    from part err err' none buildRulesetRequest_Inr [of d sourceType] show ?thesis
      by blast
  qed
  have dep_zero: "expandRules_required_deployments d rs = rs
        \<and> (\<forall>rs'. expandRules d = Inr rs' \<longrightarrow> ''required_deployments'' \<notin> Type ` set rs')
        \<and> (\<forall>req. buildRulesetRequest d sourceType = Inr req \<longrightarrow>
               ''required_deployments'' \<notin> Type ` set (Rules req))"
    if z: "rule_required_deployments d = None \<or> rule_required_deployments d = Some []"
  proof -
    have part: "expandRules_required_deployments d rs = rs"
      using z by (auto simp: expandRules_required_deployments_eq)
    have none: "''required_deployments'' \<notin> Type ` set rs'"
      if r: "expandRules d = Inr rs'" for rs'
    proof -
      have "filter (\<lambda>e. Type e = ''required_deployments'') rs' = []"
        using expandRules_filter_kind(1) [OF r] z by auto
      then show ?thesis by (auto simp: filter_empty_conv)
    qed
    from part none buildRulesetRequest_Inr [of d sourceType] show ?thesis
      by blast
  qed
  have dep_some: "expandRules_required_deployments d rs =
          rs @ [\<lparr>Type = ''required_deployments'',
                 Parameters = Some (Marshal_RequiredDeployments
                   \<lparr>RequiredDeploymentEnvironments = envs\<rparr>)\<rparr>]
        \<and> (\<forall>rs'. expandRules d = Inr rs' \<longrightarrow>
               filter (\<lambda>e. Type e = ''required_deployments'') rs' =
                 [\<lparr>Type = ''required_deployments'',
                   Parameters = Some (Marshal_RequiredDeployments
                     \<lparr>RequiredDeploymentEnvironments = envs\<rparr>)\<rparr>])
        \<and> (\<forall>req. buildRulesetRequest d sourceType = Inr req \<longrightarrow>
               filter (\<lambda>e. Type e = ''required_deployments'') (Rules req) =
                 [\<lparr>Type = ''required_deployments'',
                   Parameters = Some (Marshal_RequiredDeployments
                     \<lparr>RequiredDeploymentEnvironments = envs\<rparr>)\<rparr>])"
    if s: "rule_required_deployments d = Some envs \<and> envs \<noteq> []"
  proof -
    from s have ok: "GetOk (rule_required_deployments d) = Some envs"
      by (simp add: GetOk_Some_iff)
    have part: "expandRules_required_deployments d rs =
          rs @ [\<lparr>Type = ''required_deployments'',
                 Parameters = Some (Marshal_RequiredDeployments
                   \<lparr>RequiredDeploymentEnvironments = envs\<rparr>)\<rparr>]"
      using ok by (simp add: expandRules_required_deployments_eq requiredDeploymentRule_def)
    have one: "filter (\<lambda>e. Type e = ''required_deployments'') rs' =
                 [\<lparr>Type = ''required_deployments'',
                   Parameters = Some (Marshal_RequiredDeployments
                     \<lparr>RequiredDeploymentEnvironments = envs\<rparr>)\<rparr>]"
      if r: "expandRules d = Inr rs'" for rs'
      using expandRules_filter_kind(1) [OF r] ok by (simp add: requiredDeploymentRule_def)
    from part one buildRulesetRequest_Inr [of d sourceType] show ?thesis
      by blast
  qed
  from pr_many sc_many pr_zero sc_zero dep_zero dep_some show ?thesis
    by blast
qed


theorem expandRules_block_occurrence_witness:
  "rule_pull_request (unset\<lparr>rule_pull_request := Some [None, None]\<rparr>) = Some [None, None]
   \<and> length [None :: rule_pull_request_elem option, None] > 1
   \<and> expandRules (unset\<lparr>rule_pull_request := Some [None, None]\<rparr>)
       = Inl (DuplicateRuleBlock ''pull_request'')
   \<and> buildRulesetRequest (unset\<lparr>rule_pull_request := Some [None, None]\<rparr>) None
       = Inl (DuplicateRuleBlock ''pull_request'')
   \<and> rule_required_status_checks (unset\<lparr>rule_required_status_checks := Some [None, None]\<rparr>)
       = Some [None, None]
   \<and> length [None :: rule_required_status_checks_elem option, None] > 1
   \<and> expandRules (unset\<lparr>rule_required_status_checks := Some [None, None]\<rparr>)
       = Inl (DuplicateRuleBlock ''required_status_checks'')
   \<and> buildRulesetRequest (unset\<lparr>rule_required_status_checks := Some [None, None]\<rparr>) None
       = Inl (DuplicateRuleBlock ''required_status_checks'')
   \<and> rule_pull_request unset = None
   \<and> expandRules_pull_request unset [\<lparr>Type = ''creation'', Parameters = None\<rparr>]
       = Inr [\<lparr>Type = ''creation'', Parameters = None\<rparr>]
   \<and> rule_required_status_checks unset = None
   \<and> expandRules_required_status_checks unset [\<lparr>Type = ''creation'', Parameters = None\<rparr>]
       = Inr [\<lparr>Type = ''creation'', Parameters = None\<rparr>]
   \<and> rule_required_deployments unset = None
   \<and> expandRules_required_deployments unset [\<lparr>Type = ''creation'', Parameters = None\<rparr>]
       = [\<lparr>Type = ''creation'', Parameters = None\<rparr>]
   \<and> expandRules unset = Inr []
   \<and> rule_required_deployments (unset\<lparr>rule_required_deployments := Some [''staging'', ''production'']\<rparr>)
       = Some [''staging'', ''production'']
   \<and> [''staging'', ''production''] \<noteq> []
   \<and> expandRules_required_deployments
         (unset\<lparr>rule_required_deployments := Some [''staging'', ''production'']\<rparr>)
         [\<lparr>Type = ''creation'', Parameters = None\<rparr>]
       = [\<lparr>Type = ''creation'', Parameters = None\<rparr>,
          \<lparr>Type = ''required_deployments'',
            Parameters = Some (Marshal_RequiredDeployments
              \<lparr>RequiredDeploymentEnvironments = [''staging'', ''production'']\<rparr>)\<rparr>]
   \<and> expandRules (unset\<lparr>rule_creation := True,
                         rule_required_deployments := Some [''staging'', ''production'']\<rparr>)
       = Inr [\<lparr>Type = ''creation'', Parameters = None\<rparr>,
              \<lparr>Type = ''required_deployments'',
                Parameters = Some (Marshal_RequiredDeployments
                  \<lparr>RequiredDeploymentEnvironments = [''staging'', ''production'']\<rparr>)\<rparr>]
   \<and> filter (\<lambda>e. Type e = ''required_deployments'')
         [\<lparr>Type = ''creation'', Parameters = None\<rparr>,
          \<lparr>Type = ''required_deployments'',
            Parameters = Some (Marshal_RequiredDeployments
              \<lparr>RequiredDeploymentEnvironments = [''staging'', ''production'']\<rparr>)\<rparr>]
       = [\<lparr>Type = ''required_deployments'',
            Parameters = Some (Marshal_RequiredDeployments
              \<lparr>RequiredDeploymentEnvironments = [''staging'', ''production'']\<rparr>)\<rparr>]"
proof -
  let ?acc = "[\<lparr>Type = ''creation'', Parameters = None\<rparr>]"
  let ?dep = "\<lparr>Type = ''required_deployments'',
            Parameters = Some (Marshal_RequiredDeployments
              \<lparr>RequiredDeploymentEnvironments = [''staging'', ''production'']\<rparr>)\<rparr>"
  let ?d6 = "unset\<lparr>rule_creation := True,
                         rule_required_deployments := Some [''staging'', ''production'']\<rparr>"
  have run: "expandRules unset = Inr []"
    "expandRules ?d6 = Inr [\<lparr>Type = ''creation'', Parameters = None\<rparr>, ?dep]"
    by (simp_all add: expandRules_eval)
  have conds: "conditions (unset\<lparr>rule_pull_request := Some [None, None]\<rparr>) = None"
    "conditions (unset\<lparr>rule_required_status_checks := Some [None, None]\<rparr>) = None"
    "rule_pull_request (unset\<lparr>rule_required_status_checks := Some [None, None]\<rparr>) = None"
    by (simp_all add: unset_def)
  from expandRules_block_occurrence
         [of "unset\<lparr>rule_pull_request := Some [None, None]\<rparr>" "[None, None]" None]
       conds
  have one: "expandRules (unset\<lparr>rule_pull_request := Some [None, None]\<rparr>)
       = Inl (DuplicateRuleBlock ''pull_request'')
     \<and> buildRulesetRequest (unset\<lparr>rule_pull_request := Some [None, None]\<rparr>) None
       = Inl (DuplicateRuleBlock ''pull_request'')"
    by simp
  from expandRules_block_occurrence
         [of "unset\<lparr>rule_required_status_checks := Some [None, None]\<rparr>" _ None "[None, None]"]
       conds
  have two: "expandRules (unset\<lparr>rule_required_status_checks := Some [None, None]\<rparr>)
       = Inl (DuplicateRuleBlock ''required_status_checks'')
     \<and> buildRulesetRequest (unset\<lparr>rule_required_status_checks := Some [None, None]\<rparr>) None
       = Inl (DuplicateRuleBlock ''required_status_checks'')"
    by simp
  from expandRules_block_occurrence [of unset _ None _ ?acc]
  have three: "expandRules_pull_request unset ?acc = Inr ?acc
     \<and> expandRules_required_status_checks unset ?acc = Inr ?acc
     \<and> expandRules_required_deployments unset ?acc = ?acc"
    by (simp add: unset_def)
  from expandRules_block_occurrence
         [of "unset\<lparr>rule_required_deployments := Some [''staging'', ''production'']\<rparr>"
             _ None _ ?acc "[''staging'', ''production'']"]
  have four: "expandRules_required_deployments
         (unset\<lparr>rule_required_deployments := Some [''staging'', ''production'']\<rparr>) ?acc
       = ?acc @ [?dep]"
    by (simp add: unset_def)
  from expandRules_block_occurrence [of ?d6 _ None _ _ "[''staging'', ''production'']"] run(2)
  have five: "filter (\<lambda>e. Type e = ''required_deployments'')
         [\<lparr>Type = ''creation'', Parameters = None\<rparr>, ?dep] = [?dep]"
    by (simp add: unset_def)
  from one two three four five run show ?thesis
    by (simp add: unset_def)
qed

text \<open>
  Two environment names in \<open>rule_required_deployments\<close> do not fail the build and give
  one rule. With both block lists duplicated the error names \<open>pull_request\<close>, not
  \<open>required_status_checks\<close>; with the conditions block duplicated as well the build fails
  with \<open>DuplicateConditionsBlock\<close>.
\<close>

theorem expandRules_block_occurrence_counterexample:
  "expandRules (unset\<lparr>rule_required_deployments := Some [''staging'', ''production'']\<rparr>)
     = Inr [\<lparr>Type = ''required_deployments'',
             Parameters = Some (Marshal_RequiredDeployments
               \<lparr>RequiredDeploymentEnvironments = [''staging'', ''production'']\<rparr>)\<rparr>]
   \<and> buildRulesetRequest
       (unset\<lparr>rule_required_deployments := Some [''staging'', ''production'']\<rparr>) None
     = Inr \<lparr>Name = ''protect-main'', Target = Some ''branch'', SourceType = None,
            Enforcement = ''active'', BypassActors = None,
            Conditions = Some \<lparr>RefName = None\<rparr>,
            Rules = [\<lparr>Type = ''required_deployments'',
                      Parameters = Some (Marshal_RequiredDeployments
                        \<lparr>RequiredDeploymentEnvironments = [''staging'', ''production'']\<rparr>)\<rparr>]\<rparr>
   \<and> expandRules (unset\<lparr>rule_pull_request := Some [None, None],
                         rule_required_status_checks := Some [None, None]\<rparr>)
     = Inl (DuplicateRuleBlock ''pull_request'')
   \<and> DuplicateRuleBlock ''pull_request'' \<noteq> DuplicateRuleBlock ''required_status_checks''
   \<and> buildRulesetRequest
       (unset\<lparr>conditions := Some [None, None], rule_pull_request := Some [None, None]\<rparr>) None
     = Inl DuplicateConditionsBlock"
  by (simp add: buildRulesetRequest_def expandBypassActors_def expandConditions_def
        expandRules_eval)





subsection \<open>The request\<close>





subsection \<open>The state flattener\<close>

text \<open>
  C7. For a ruleset with a ref-name condition, \<open>flattenAndSetRulesetConditions\<close> sets
  \<open>conditions\<close> to a single block holding the condition's \<open>Include\<close> and \<open>Exclude\<close>; for
  any other ruleset (a nil ruleset, nil \<open>Conditions\<close>, or nil \<open>RefName\<close>) it sets
  \<open>conditions\<close> to the empty block list. Either way the attribute is written.
\<close>

theorem flattenAndSetRulesetConditions_block:
  "(ruleset = Some r \<and> Conditions r = Some rc \<and> RefName rc = Some c \<longrightarrow>
      flattenAndSetRulesetConditions d ruleset =
        d\<lparr>set_conditions := Some [\<lparr>include' = Include c, exclude' = Exclude c\<rparr>]\<rparr>)
   \<and> (ruleset = None \<or> (ruleset = Some r \<and> Conditions r = None)
        \<or> (ruleset = Some r \<and> Conditions r = Some rc \<and> RefName rc = None) \<longrightarrow>
        flattenAndSetRulesetConditions d ruleset = d\<lparr>set_conditions := Some []\<rparr>)
   \<and> set_conditions (flattenAndSetRulesetConditions d ruleset) \<noteq> None"
  by (auto simp: flattenAndSetRulesetConditions_def GetConditions_def GetRefName_def Let_def
        split: option.splits)

theorem flattenAndSetRulesetConditions_block_witness:
  "set_conditions
     (flattenAndSetRulesetConditions unset
        (Some \<lparr>Name = ''protect-main'', Target = Some ''branch'', SourceType = None,
               Enforcement = ''active'', BypassActors = None,
               Conditions = Some \<lparr>RefName = Some \<lparr>Include = [''refs/heads/main'', ''refs/heads/rel/*''],
                                                    Exclude = [''refs/heads/tmp'']\<rparr>\<rparr>,
               Rules = []\<rparr>))
     = Some [\<lparr>include' = [''refs/heads/main'', ''refs/heads/rel/*''],
              exclude' = [''refs/heads/tmp'']\<rparr>]
   \<and> set_conditions (flattenAndSetRulesetConditions unset None) = Some []
   \<and> set_conditions
       (flattenAndSetRulesetConditions unset
          (Some \<lparr>Name = ''protect-main'', Target = Some ''branch'', SourceType = None,
                 Enforcement = ''active'', BypassActors = None,
                 Conditions = None, Rules = []\<rparr>)) = Some []
   \<and> set_conditions
       (flattenAndSetRulesetConditions unset
          (Some \<lparr>Name = ''protect-main'', Target = Some ''branch'', SourceType = None,
                 Enforcement = ''active'', BypassActors = None,
                 Conditions = Some \<lparr>RefName = None\<rparr>, Rules = []\<rparr>)) = Some []"
  using flattenAndSetRulesetConditions_block
     [of "Some \<lparr>Name = ''protect-main'', Target = Some ''branch'', SourceType = None,
               Enforcement = ''active'', BypassActors = None,
               Conditions = Some \<lparr>RefName = Some \<lparr>Include = [''refs/heads/main'', ''refs/heads/rel/*''],
                                                    Exclude = [''refs/heads/tmp'']\<rparr>\<rparr>,
               Rules = []\<rparr>"
         "\<lparr>Name = ''protect-main'', Target = Some ''branch'', SourceType = None,
               Enforcement = ''active'', BypassActors = None,
               Conditions = Some \<lparr>RefName = Some \<lparr>Include = [''refs/heads/main'', ''refs/heads/rel/*''],
                                                    Exclude = [''refs/heads/tmp'']\<rparr>\<rparr>,
               Rules = []\<rparr>"
         "\<lparr>RefName = Some \<lparr>Include = [''refs/heads/main'', ''refs/heads/rel/*''],
                                                    Exclude = [''refs/heads/tmp'']\<rparr>\<rparr>"
         "\<lparr>Include = [''refs/heads/main'', ''refs/heads/rel/*''], Exclude = [''refs/heads/tmp'']\<rparr>"
         unset]
    flattenAndSetRulesetConditions_block [of None _ _ _ unset]
    flattenAndSetRulesetConditions_block
     [of "Some \<lparr>Name = ''protect-main'', Target = Some ''branch'', SourceType = None,
                 Enforcement = ''active'', BypassActors = None,
                 Conditions = None, Rules = []\<rparr>"
         "\<lparr>Name = ''protect-main'', Target = Some ''branch'', SourceType = None,
                 Enforcement = ''active'', BypassActors = None,
                 Conditions = None, Rules = []\<rparr>" _ _ unset]
    flattenAndSetRulesetConditions_block
     [of "Some \<lparr>Name = ''protect-main'', Target = Some ''branch'', SourceType = None,
                 Enforcement = ''active'', BypassActors = None,
                 Conditions = Some \<lparr>RefName = None\<rparr>, Rules = []\<rparr>"
         "\<lparr>Name = ''protect-main'', Target = Some ''branch'', SourceType = None,
                 Enforcement = ''active'', BypassActors = None,
                 Conditions = Some \<lparr>RefName = None\<rparr>, Rules = []\<rparr>"
         "\<lparr>RefName = None\<rparr>" _ unset]
  by (simp add: unset_def)

lemma expandConditions_single:
  "conditions d = Some [Some m] \<Longrightarrow>
   expandConditions d = Inr (Some \<lparr>Include = include' m, Exclude = exclude' m\<rparr>)"
  by (simp add: expandConditions_def expandNestedSet_def)

lemma flatten_then_expand:
  "expandConditions
     (d\<lparr>conditions :=
          map_option (map Some)
            (set_conditions
               (flattenAndSetRulesetConditions d
                  (Some (r\<lparr>Conditions := Some \<lparr>RefName = Some c\<rparr>\<rparr>))))\<rparr>)
   = Inr (Some c)"
  by (simp add: flattenAndSetRulesetConditions_def GetConditions_def GetRefName_def
        expandConditions_single)

text \<open>
  C6. The block \<open>{include: ["refs/heads/main"], exclude: []}\<close> builds the condition with
  that include list and an empty exclude list, which \<open>buildRulesetRequest\<close> puts into the
  request. Flattening that request writes the one block back; read as the \<open>conditions\<close>
  attribute again (set, its element not nil), the block builds the same condition, with
  the same include and exclude sets. (\<open>flatten_then_expand\<close> is the same for any
  condition.)
\<close>

theorem conditions_round_trip:
  "expandConditions
     (unset\<lparr>conditions := Some [Some \<lparr>include' = [''refs/heads/main''], exclude' = []\<rparr>]\<rparr>)
     = Inr (Some \<lparr>Include = [''refs/heads/main''], Exclude = []\<rparr>)
   \<and> buildRulesetRequest
       (unset\<lparr>conditions := Some [Some \<lparr>include' = [''refs/heads/main''], exclude' = []\<rparr>]\<rparr>)
       None
     = Inr \<lparr>Name = ''protect-main'', Target = Some ''branch'', SourceType = None,
            Enforcement = ''active'', BypassActors = None,
            Conditions = Some \<lparr>RefName = Some \<lparr>Include = [''refs/heads/main''], Exclude = []\<rparr>\<rparr>,
            Rules = []\<rparr>
   \<and> set_conditions
       (flattenAndSetRulesetConditions
          (unset\<lparr>conditions := Some [Some \<lparr>include' = [''refs/heads/main''], exclude' = []\<rparr>]\<rparr>)
          (Some \<lparr>Name = ''protect-main'', Target = Some ''branch'', SourceType = None,
                 Enforcement = ''active'', BypassActors = None,
                 Conditions = Some \<lparr>RefName = Some \<lparr>Include = [''refs/heads/main''], Exclude = []\<rparr>\<rparr>,
                 Rules = []\<rparr>))
     = Some [\<lparr>include' = [''refs/heads/main''], exclude' = []\<rparr>]
   \<and> expandConditions
       (unset\<lparr>conditions := Some (map Some [\<lparr>include' = [''refs/heads/main''], exclude' = []\<rparr>])\<rparr>)
     = Inr (Some \<lparr>Include = [''refs/heads/main''], Exclude = []\<rparr>)
   \<and> set (Include \<lparr>Include = [''refs/heads/main''], Exclude = []\<rparr>) = {''refs/heads/main''}
   \<and> set (Exclude \<lparr>Include = [''refs/heads/main''], Exclude = []\<rparr>) = {}"
  by (simp add: buildRulesetRequest_def expandBypassActors_def expandConditions_def
        expandNestedSet_def expandRules_eval flattenAndSetRulesetConditions_def
        GetConditions_def GetRefName_def)

end
